theory Spec2Isabelle
  imports Main "HOL-Library.AList"
begin

section \<open>Python values\<close>

text \<open>
  A Python \<open>str\<close> is a sequence of Unicode code points, so it is a list of naturals
  (\<open>chr\<close> of a code point is that code point). A value that is a \<open>str\<close> or \<open>None\<close>
  (the \<open>.text\<close> of an XML element, an attribute read with \<open>get\<close>) is a \<open>pytext\<close>.
\<close>

type_synonym pystr = "nat list"
type_synonym pytext = "pystr option"

definition py :: "string \<Rightarrow> pystr" where
  "py s = map of_char s"

datatype error = AttributeError | TypeError | KeyError | ValueError

section \<open>HTML entity decoding\<close>

text \<open>
  \<open>s.replace(old, new)\<close>: the occurrences of \<open>old\<close> are found scanning from the left and
  do not overlap. With an empty \<open>old\<close>, Python puts \<open>new\<close> before every character and
  at the end.
\<close>

function str_replace :: "pystr \<Rightarrow> pystr \<Rightarrow> pystr \<Rightarrow> pystr" where
  "str_replace old new [] = (if old = [] then new else [])"
| "str_replace old new (c # cs) =
     (if old = [] then new @ c # str_replace old new cs
      else if take (length old) (c # cs) = old
           then new @ str_replace old new (drop (length old) (c # cs))
           else c # str_replace old new cs)"
  by pat_completeness auto
termination
  by (relation "measure (\<lambda>(old, new, s). length s)") auto

text \<open>
  The pattern \<open>'&(%s);' % '|'.join(name2codepoint)\<close> at one position: after the
  \<open>&\<close>, the alternatives are tried in the table's order, each followed by \<open>;\<close>.
  \<open>match_entity\<close> is given the text after the \<open>&\<close> and returns the code point of the
  matched name and the text after the \<open>;\<close>. The table \<open>name2codepoint\<close> belongs to
  Python's library and is a parameter here: a dict, as the list of its items (its keys
  are distinct, so the item whose name matched is the one \<open>name2codepoint[m.group(1)]\<close>
  reads). Its names are taken literally; those of the library are alphanumeric.
\<close>

fun match_entity :: "(pystr \<times> nat) list \<Rightarrow> pystr \<Rightarrow> (nat \<times> pystr) option" where
  "match_entity [] s = None"
| "match_entity ((n, cp) # tbl) s =
     (if take (length n + 1) s = n @ [59] then Some (cp, drop (length n + 1) s)
      else match_entity tbl s)"

lemma match_entity_shorter:
  "match_entity tbl s = Some (cp, rest) \<Longrightarrow> length rest \<le> length s"
  by (induction tbl) (auto split: if_splits)

text \<open>\<open>re.sub\<close> with that pattern: leftmost matches, replaced by \<open>chr\<close> of the code point.\<close>

function entity_sub :: "(pystr \<times> nat) list \<Rightarrow> pystr \<Rightarrow> pystr" where
  "entity_sub tbl [] = []"
| "entity_sub tbl (c # cs) =
     (if c = 38 then
        (case match_entity tbl cs of
           Some (cp, rest) \<Rightarrow> cp # entity_sub tbl rest
         | None \<Rightarrow> c # entity_sub tbl cs)
      else c # entity_sub tbl cs)"
  by pat_completeness auto
termination
  by (relation "measure (\<lambda>(tbl, s). length s)")
     (auto dest: match_entity_shorter simp: less_Suc_eq_le)

definition htmlentitydecode :: "(pystr \<times> nat) list \<Rightarrow> pytext \<Rightarrow> pystr" where
  "htmlentitydecode name2codepoint s =
     (case s of
        None \<Rightarrow> []
      | Some s \<Rightarrow> entity_sub name2codepoint (str_replace (replicate 8 32) [] s))"

subsection \<open>The reference definition of the specification\<close>

text \<open>
  The specification's words: eight consecutive spaces are collapsed to nothing; then
  a recognised named entity, that is \<open>&\<close>, a name of the table and \<open>;\<close>, is replaced by
  its character, and anything else is left as it is. Here the name at an \<open>&\<close> is read
  as the text up to the next \<open>;\<close> and looked up in the table.
\<close>

fun collapse8 :: "pystr \<Rightarrow> pystr" where
  "collapse8 (a # b # c # d # e # f # g # h # rest) =
     (if a = 32 \<and> b = 32 \<and> c = 32 \<and> d = 32 \<and> e = 32 \<and> f = 32 \<and> g = 32 \<and> h = 32
      then collapse8 rest
      else a # collapse8 (b # c # d # e # f # g # h # rest))"
| "collapse8 (a # rest) = a # collapse8 rest"
| "collapse8 [] = []"

function decode_named :: "(pystr \<times> nat) list \<Rightarrow> pystr \<Rightarrow> pystr" where
  "decode_named tbl [] = []"
| "decode_named tbl (c # cs) =
     (if c = 38 then
        (case dropWhile (\<lambda>x. x \<noteq> 59) cs of
           [] \<Rightarrow> c # decode_named tbl cs
         | semi # rest \<Rightarrow>
             (case map_of tbl (takeWhile (\<lambda>x. x \<noteq> 59) cs) of
                Some cp \<Rightarrow> cp # decode_named tbl rest
              | None \<Rightarrow> c # decode_named tbl cs))
      else c # decode_named tbl cs)"
  by pat_completeness auto
termination
proof (relation "measure (\<lambda>(tbl, s). length s)", goal_cases)
  case (4 tbl c cs semi rest cp)
  have "length (dropWhile (\<lambda>x. x \<noteq> 59) cs) \<le> length cs"
    by (rule length_dropWhile_le)
  with 4 show ?case by simp
qed auto

definition htmlentitydecode_ref :: "(pystr \<times> nat) list \<Rightarrow> pytext \<Rightarrow> pystr" where
  "htmlentitydecode_ref tbl s =
     (case s of None \<Rightarrow> [] | Some s \<Rightarrow> decode_named tbl (collapse8 s))"

section \<open>The version pattern\<close>

text \<open>
  \<open>re.match('^(\d+.){3}\d+$', version.text)\<close>. The pattern is kept as a term and
  matched by derivatives. \<open>\d\<close> is a decimal digit of Python's Unicode table, which
  belongs to the library and is a parameter here (\<open>isdigit\<close>, a set of code points);
  the unescaped \<open>.\<close> is any character but a newline, and \<open>$\<close> is the end of the
  string or a newline that ends it.
\<close>

datatype rexp =
    Zero
  | Eps
  | Digit
  | Dot
  | Newline
  | Alt rexp rexp
  | Seq rexp rexp
  | Star rexp

fun nullable :: "rexp \<Rightarrow> bool" where
  "nullable Zero = False"
| "nullable Eps = True"
| "nullable Digit = False"
| "nullable Dot = False"
| "nullable Newline = False"
| "nullable (Alt r s) = (nullable r \<or> nullable s)"
| "nullable (Seq r s) = (nullable r \<and> nullable s)"
| "nullable (Star r) = True"

fun deriv :: "(nat \<Rightarrow> bool) \<Rightarrow> nat \<Rightarrow> rexp \<Rightarrow> rexp" where
  "deriv isdigit c Zero = Zero"
| "deriv isdigit c Eps = Zero"
| "deriv isdigit c Digit = (if isdigit c then Eps else Zero)"
| "deriv isdigit c Dot = (if c \<noteq> 10 then Eps else Zero)"
| "deriv isdigit c Newline = (if c = 10 then Eps else Zero)"
| "deriv isdigit c (Alt r s) = Alt (deriv isdigit c r) (deriv isdigit c s)"
| "deriv isdigit c (Seq r s) =
     (if nullable r then Alt (Seq (deriv isdigit c r) s) (deriv isdigit c s)
      else Seq (deriv isdigit c r) s)"
| "deriv isdigit c (Star r) = Seq (deriv isdigit c r) (Star r)"

fun re_match :: "(nat \<Rightarrow> bool) \<Rightarrow> rexp \<Rightarrow> pystr \<Rightarrow> bool" where
  "re_match isdigit r [] = nullable r"
| "re_match isdigit r (c # cs) = re_match isdigit (deriv isdigit c r) cs"

definition Plus :: "rexp \<Rightarrow> rexp" where
  "Plus r = Seq r (Star r)"

definition Dollar :: rexp where
  "Dollar = Alt Eps Newline"

definition version_re :: rexp where
  "version_re =
     (let group = Seq (Plus Digit) Dot
      in Seq group (Seq group (Seq group (Seq (Plus Digit) Dollar))))"

text \<open>The strict pattern of the specification: four runs of digits separated by dots.\<close>

definition is_digits :: "pystr \<Rightarrow> bool" where
  "is_digits s = (s \<noteq> [] \<and> list_all (\<lambda>c. 48 \<le> c \<and> c \<le> 57) s)"

fun split_on :: "nat \<Rightarrow> pystr \<Rightarrow> pystr list" where
  "split_on sep [] = [[]]"
| "split_on sep (c # cs) =
     (if c = sep then [] # split_on sep cs
      else (case split_on sep cs of
              [] \<Rightarrow> [[c]]
            | w # ws \<Rightarrow> (c # w) # ws))"

definition strict_version :: "pystr \<Rightarrow> bool" where
  "strict_version s =
     (let parts = split_on 46 s in length parts = 4 \<and> list_all is_digits parts)"

section \<open>The project model\<close>

text \<open>
  An issue is the dict built by \<open>_add_to_projects\<close>. The keys that \<open>migrate\<close> adds or
  deletes are optional fields: \<open>comments\<close> is \<open>None\<close> once deleted, \<open>milestone_name\<close> and
  \<open>milestone\<close> are \<open>None\<close> while the key is absent (\<open>milestone = Some None\<close> is the key
  bound to Python's \<open>None\<close>).
\<close>

record issue =
  title :: pytext
  issue_type :: pytext
  key :: pytext
  body :: pystr
  labels :: "pytext list"
  comments :: "pystr list option"
  milestone_name :: "pytext option"
  milestone :: "int option option"

text \<open>
  Dicts are lists of items in insertion order; \<open>AList.update\<close> overwrites a key in
  place and appends a new one, as a dict does. A count of \<open>Milestones\<close> becomes \<open>None\<close>
  in \<open>milestones\<close>.
\<close>

record project =
  Milestones :: "(pytext \<times> int option) list"
  Components :: "(pytext \<times> int) list"
  Labels :: "(pytext \<times> int) list"
  Issues :: "issue list"

definition empty_project :: project where
  "empty_project = \<lparr>Milestones = [], Components = [], Labels = [], Issues = []\<rparr>"

text \<open>
  An \<open>item\<close> element of the export, as \<open>_add_to_projects\<close> reads it. A child that is
  read once is \<open>None\<close> when the element is absent (the read raises AttributeError) and
  \<open>Some t\<close> with \<open>t\<close> its \<open>.text\<close> (or, for \<open>project\<close> and \<open>reporter\<close>, the attribute
  read with \<open>get\<close>), itself \<open>None\<close> when empty or missing. Repeated children are lists;
  iterating an absent one raises AttributeError, which the code passes over, so the
  empty list stands for it.
\<close>

record comment =
  c_author :: pytext
  c_created :: pytext
  c_text :: pytext

record item =
  x_project :: "pytext option"
  x_title :: "pytext option"
  x_type :: "pytext option"
  x_key :: "pytext option"
  x_reporter :: "pytext option"
  x_created :: "pytext option"
  x_resolved :: "pytext option"
  x_description :: "pytext option"
  x_status :: "pytext option"
  x_fixVersion :: "pytext option"
  x_component :: "pytext option"
  x_version :: "pytext list"
  x_priority :: "pytext option"
  x_labels :: "pytext list"
  x_comments :: "comment list"

section \<open>The remote service and the state of a run\<close>

text \<open>
  A request is what the code sends; a response is what the code reads of it:
  \<open>status_code\<close>, \<open>content\<close> and \<open>titles\<close> (the \<open>title\<close> of each entry of the milestone
  listing). The \<open>content\<close> is \<open>NotJSON\<close> when \<open>json.loads\<close> raises on it (ValueError),
  \<open>NotObject\<close> when the result is not a dict, so that \<open>['number']\<close> raises TypeError,
  \<open>NoNumber\<close> when it is a dict without that key (KeyError), and \<open>Number n\<close> when
  \<open>str(content['number'])\<close> is \<open>n\<close>. The remote service is a function of the exchanges so far and of the
  request. Requests that raise instead of answering are outside the model.
\<close>

datatype request = GetMilestones | PostIssue issue | PostComment pystr pystr

datatype content = NotJSON | NotObject | NoNumber | Number pystr

record response =
  status_code :: int
  content :: content
  titles :: "pytext list"

type_synonym remote = "(request \<times> response) list \<Rightarrow> request \<Rightarrow> response"

datatype cant = CantIssue issue | CantTitle pytext

text \<open>
  The fields of \<open>self\<close>, then the world around it: the cache file (\<open>None\<close> when it is
  missing or empty), the exchanges with the remote service, and the two locals of
  \<open>migrate\<close> that a run shows: the values passed to \<open>bar.update\<close> and \<open>cant_migrate\<close>.
\<close>

record state =
  jira_project :: pystr
  projects :: "(pytext \<times> project) list"
  dry_run :: bool
  cached_data :: "pytext list"
  aliases :: "(pystr \<times> pystr) list"
  cache_file :: "pytext list option"
  sent :: "(request \<times> response) list"
  bar_values :: "nat list"
  cant_migrate :: "cant list"

definition init :: "pystr \<Rightarrow> pytext list option \<Rightarrow> state" where
  "init jp file =
     \<lparr>jira_project = jp, projects = [], dry_run = False, cached_data = [], aliases = [],
      cache_file = file, sent = [], bar_values = [], cant_migrate = []\<rparr>"

definition set_cache_path :: "state \<Rightarrow> state" where
  "set_cache_path st =
     (case cache_file st of None \<Rightarrow> st | Some ks \<Rightarrow> st\<lparr>cached_data := ks\<rparr>)"

definition set_dry_run :: "bool \<Rightarrow> state \<Rightarrow> state" where
  "set_dry_run d st = (if d then st\<lparr>dry_run := d\<rparr> else st)"

definition bind_err :: "error + 'a \<Rightarrow> ('a \<Rightarrow> error + 'b) \<Rightarrow> error + 'b" where
  "bind_err m f = (case m of Inl e \<Rightarrow> Inl e | Inr v \<Rightarrow> f v)"

section \<open>Extraction\<close>

text \<open>\<open>item.x.text\<close>: AttributeError when the element is absent.\<close>

definition elem_text :: "pytext option \<Rightarrow> error + pytext" where
  "elem_text e = (case e of None \<Rightarrow> Inl AttributeError | Some t \<Rightarrow> Inr t)"

text \<open>The same read as an operand of \<open>+\<close> on strings: \<open>None\<close> raises TypeError.\<close>

definition elem_str :: "pytext option \<Rightarrow> error + pystr" where
  "elem_str e =
     (case e of
        None \<Rightarrow> Inl AttributeError
      | Some None \<Rightarrow> Inl TypeError
      | Some (Some s) \<Rightarrow> Inr s)"

text \<open>
  The project key of an item: \<open>item.project.get('key')\<close>, and when there is no
  \<open>project\<close> element, \<open>item.key.text.split('-')[0]\<close> (45 is the hyphen).
\<close>

definition derived_key :: "item \<Rightarrow> error + pytext" where
  "derived_key item =
     (case x_project item of
        Some k \<Rightarrow> Inr k
      | None \<Rightarrow>
          (case x_key item of
             None \<Rightarrow> Inl AttributeError
           | Some None \<Rightarrow> Inl AttributeError
           | Some (Some k) \<Rightarrow> Inr (Some (takeWhile (\<lambda>c. c \<noteq> 45) k))))"

definition resolved_at :: "item \<Rightarrow> error + pystr" where
  "resolved_at item =
     (case x_resolved item of
        None \<Rightarrow> Inr []
      | Some None \<Rightarrow> Inl TypeError
      | Some (Some r) \<Rightarrow> Inr (py '', resolved='' @ [34] @ r @ [34]))"

text \<open>The dict appended to \<open>Issues\<close> (34 is the double quote, 10 the newline).\<close>

definition make_issue :: "(pystr \<times> nat) list \<Rightarrow> item \<Rightarrow> pystr \<Rightarrow> error + issue" where
  "make_issue name2codepoint item resolved =
     bind_err (elem_text (x_title item)) (\<lambda>t.
     bind_err (elem_text (x_type item)) (\<lambda>ty.
     bind_err (elem_text (x_key item)) (\<lambda>k.
     bind_err (elem_str (x_reporter item)) (\<lambda>reporter.
     bind_err (elem_str (x_created item)) (\<lambda>created.
     bind_err (elem_text (x_description item)) (\<lambda>description.
     bind_err (elem_text (x_status item)) (\<lambda>status.
       Inr \<lparr>title = t, issue_type = ty, key = k,
            body = py ''<b><i>[reporter='' @ [34] @ reporter @ [34] @ py '', created=''
                   @ [34] @ created @ [34] @ resolved @ py '']</i></b>'' @ [10]
                   @ htmlentitydecode name2codepoint description,
            labels = [status, ty], comments = Some [],
            milestone_name = None, milestone = None\<rparr>)))))))"

text \<open>\<open>d[k] += 1\<close> on a \<open>defaultdict(int)\<close>.\<close>

definition incr :: "'k \<Rightarrow> ('k \<times> int) list \<Rightarrow> ('k \<times> int) list" where
  "incr k d = AList.update k ((case map_of d k of None \<Rightarrow> 0 | Some n \<Rightarrow> n) + 1) d"

text \<open>
  An update of \<open>Issues[-1]\<close>. The list is never empty where the code does it: the
  issue has just been appended.
\<close>

definition upd_last :: "(issue \<Rightarrow> issue) \<Rightarrow> issue list \<Rightarrow> issue list" where
  "upd_last f xs = (if xs = [] then [] else butlast xs @ [f (last xs)])"

definition append_label :: "pytext \<Rightarrow> project \<Rightarrow> project" where
  "append_label v p = p\<lparr>Issues := upd_last (\<lambda>i. i\<lparr>labels := labels i @ [v]\<rparr>) (Issues p)\<rparr>"

definition add_fixVersion :: "item \<Rightarrow> project \<Rightarrow> error + project" where
  "add_fixVersion item p =
     (case x_fixVersion item of
        None \<Rightarrow> Inr p
      | Some v \<Rightarrow>
          (case map_of (Milestones p) v of
             Some None \<Rightarrow> Inl TypeError
           | Some (Some n) \<Rightarrow>
               Inr (p\<lparr>Milestones := AList.update v (Some (n + 1)) (Milestones p),
                      Issues := upd_last (\<lambda>i. i\<lparr>milestone_name := Some v\<rparr>) (Issues p)\<rparr>)
           | None \<Rightarrow>
               Inr (p\<lparr>Milestones := AList.update v (Some (0 + 1)) (Milestones p),
                      Issues := upd_last (\<lambda>i. i\<lparr>milestone_name := Some v\<rparr>) (Issues p)\<rparr>)))"

definition add_component :: "item \<Rightarrow> project \<Rightarrow> project" where
  "add_component item p =
     (case x_component item of
        None \<Rightarrow> p
      | Some v \<Rightarrow> append_label v (p\<lparr>Components := incr v (Components p)\<rparr>))"

definition version_matches :: "(nat \<Rightarrow> bool) \<Rightarrow> pytext \<Rightarrow> error + bool" where
  "version_matches isdigit t =
     (case t of None \<Rightarrow> Inl TypeError | Some s \<Rightarrow> Inr (re_match isdigit version_re s))"

fun add_versions :: "(nat \<Rightarrow> bool) \<Rightarrow> pytext list \<Rightarrow> project \<Rightarrow> error + project" where
  "add_versions isdigit [] p = Inr p"
| "add_versions isdigit (version # rest) p =
     bind_err (version_matches isdigit version) (\<lambda>m.
       if m then add_versions isdigit rest
                   (append_label version (p\<lparr>Labels := incr version (Labels p)\<rparr>))
       else add_versions isdigit rest p)"

definition add_priority :: "item \<Rightarrow> project \<Rightarrow> project" where
  "add_priority item p =
     (case x_priority item of
        None \<Rightarrow> p
      | Some v \<Rightarrow> append_label v (p\<lparr>Labels := incr v (Labels p)\<rparr>))"

fun add_labels :: "pytext list \<Rightarrow> project \<Rightarrow> project" where
  "add_labels [] p = p"
| "add_labels (label # rest) p =
     add_labels rest (append_label label (p\<lparr>Labels := incr label (Labels p)\<rparr>))"

definition comment_str :: "pytext \<Rightarrow> error + pystr" where
  "comment_str t = (case t of None \<Rightarrow> Inl TypeError | Some s \<Rightarrow> Inr s)"

fun add_comments :: "(pystr \<times> nat) list \<Rightarrow> comment list \<Rightarrow> project \<Rightarrow> error + project" where
  "add_comments name2codepoint [] p = Inr p"
| "add_comments name2codepoint (c # rest) p =
     bind_err (comment_str (c_author c)) (\<lambda>author.
     bind_err (comment_str (c_created c)) (\<lambda>created.
       add_comments name2codepoint rest
         (p\<lparr>Issues := upd_last
              (\<lambda>i. i\<lparr>comments := map_option
                     (\<lambda>cs. cs @ [py ''<b><i>[author='' @ [34] @ author @ [34]
                                  @ py '', created='' @ [34] @ created @ [34]
                                  @ py '']</i></b>'' @ [10]
                                  @ htmlentitydecode name2codepoint (c_text c)])
                     (comments i)\<rparr>)
              (Issues p)\<rparr>)))"

text \<open>Everything \<open>_add_to_projects\<close> does to the project entry once the issue is built.\<close>

definition add_item ::
  "(nat \<Rightarrow> bool) \<Rightarrow> (pystr \<times> nat) list \<Rightarrow> item \<Rightarrow> issue \<Rightarrow> project \<Rightarrow> error + project" where
  "add_item isdigit name2codepoint item i p =
     bind_err (add_fixVersion item (p\<lparr>Issues := Issues p @ [i]\<rparr>)) (\<lambda>p1.
     bind_err (add_versions isdigit (x_version item) (add_component item p1)) (\<lambda>p2.
       add_comments name2codepoint (x_comments item)
         (add_labels (x_labels item) (add_priority item p2))))"

definition add_to_projects ::
  "(nat \<Rightarrow> bool) \<Rightarrow> (pystr \<times> nat) list \<Rightarrow> item \<Rightarrow> state \<Rightarrow> error + state" where
  "add_to_projects isdigit name2codepoint item st =
     bind_err (derived_key item) (\<lambda>proj.
       let st1 = (if map_of (projects st) proj = None
                  then st\<lparr>projects :=
                         AList.update (Some (jira_project st)) empty_project (projects st)\<rparr>
                  else st)
       in bind_err (resolved_at item) (\<lambda>resolved.
            case map_of (projects st1) (Some (jira_project st1)) of
              None \<Rightarrow> Inl KeyError
            | Some p \<Rightarrow>
                bind_err (make_issue name2codepoint item resolved) (\<lambda>i.
                bind_err (add_item isdigit name2codepoint item i p) (\<lambda>p'.
                  Inr (st1\<lparr>projects :=
                         AList.update (Some (jira_project st1)) p' (projects st1)\<rparr>)))))"

fun add_all ::
  "(nat \<Rightarrow> bool) \<Rightarrow> (pystr \<times> nat) list \<Rightarrow> item list \<Rightarrow> state \<Rightarrow> error + state" where
  "add_all isdigit name2codepoint [] st = Inr st"
| "add_all isdigit name2codepoint (item # rest) st =
     bind_err (add_to_projects isdigit name2codepoint item st)
       (add_all isdigit name2codepoint rest)"

text \<open>
  \<open>extract\<close>, over the items of the channel; \<open>all_xml.channel.item\<close> raises
  AttributeError when the channel has no item.
\<close>

definition extract_xml ::
  "(nat \<Rightarrow> bool) \<Rightarrow> (pystr \<times> nat) list \<Rightarrow> item list \<Rightarrow> state \<Rightarrow> error + state" where
  "extract_xml isdigit name2codepoint items st =
     (if items = [] then Inl AttributeError else add_all isdigit name2codepoint items st)"

section \<open>Milestones\<close>

definition send :: "remote \<Rightarrow> request \<Rightarrow> state \<Rightarrow> response \<times> state" where
  "send remote req st =
     (let r = remote (sent st) req in (r, st\<lparr>sent := sent st @ [(req, r)]\<rparr>))"

text \<open>
  A stateful operation returns the error it raised, if any, and the state it left.
  \<open>milestones\<close> binds to \<open>None\<close> the count of every milestone name whose title is not
  in the listing.
\<close>

definition milestones :: "remote \<Rightarrow> state \<Rightarrow> error option \<times> state" where
  "milestones remote st =
     (let (r, st1) = send remote GetMilestones st
      in case map_of (projects st1) (Some (jira_project st1)) of
           None \<Rightarrow> (Some KeyError, st1)
         | Some p \<Rightarrow>
             (None,
              st1\<lparr>projects :=
                    AList.update (Some (jira_project st1))
                      (p\<lparr>Milestones :=
                           map (\<lambda>(mkey, v). if mkey \<in> set (titles r) then (mkey, v)
                                            else (mkey, None))
                               (Milestones p)\<rparr>)
                      (projects st1)\<rparr>))"

section \<open>Saving an issue\<close>

text \<open>The append to \<open>cached_data\<close> and the dump of the whole list to the cache file.\<close>

definition save_cache :: "issue \<Rightarrow> state \<Rightarrow> state" where
  "save_cache i st =
     (let st1 = st\<lparr>cached_data := cached_data st @ [key i]\<rparr>
      in st1\<lparr>cache_file := Some (cached_data st1)\<rparr>)"

text \<open>
  The loop over the comments, given what \<open>json.loads(response_create.content)\<close>
  returned; \<open>content['number']\<close> is read at each comment. (\<open>_save_issue\<close> has raised
  already when the content is \<open>NotJSON\<close>.)
\<close>

fun post_comments ::
  "remote \<Rightarrow> content \<Rightarrow> pystr list \<Rightarrow> state \<Rightarrow> (error + bool option) \<times> state" where
  "post_comments remote c [] st = (Inr None, st)"
| "post_comments remote c (comment # rest) st =
     (case c of
        Number n \<Rightarrow>
          (let (r, st1) = send remote (PostComment n comment) st
           in post_comments remote c rest st1)
      | NoNumber \<Rightarrow> (Inl KeyError, st)
      | NotObject \<Rightarrow> (Inl TypeError, st)
      | NotJSON \<Rightarrow> (Inl ValueError, st))"

text \<open>
  \<open>_save_issue\<close> returns \<open>False\<close>, \<open>True\<close> or, after the comments, nothing (\<open>None\<close>).
  \<open>dry_run\<close> is a boolean, so the two tests on it are one branch here.
\<close>

definition save_issue ::
  "remote \<Rightarrow> issue \<Rightarrow> pystr list \<Rightarrow> state \<Rightarrow> (error + bool option) \<times> state" where
  "save_issue remote i cs st =
     (if dry_run st then (Inr (Some True), save_cache i st)
      else
        (let (response_create, st1) = send remote (PostIssue i) st
         in if status_code response_create \<noteq> 201 then (Inr (Some False), st1)
            else
              (let st2 = save_cache i st1
               in case content response_create of
                    NotJSON \<Rightarrow> (Inl ValueError, st2)
                  | c \<Rightarrow> post_comments remote c cs st2)))"

section \<open>Migration\<close>

text \<open>The loop that fills \<open>result\<close> from the labels of an issue.\<close>

fun alias_labels :: "(pystr \<times> pystr) list \<Rightarrow> pytext list \<Rightarrow> pytext list" where
  "alias_labels al [] = []"
| "alias_labels al (label # rest) =
     (case label of
        None \<Rightarrow> label # alias_labels al rest
      | Some l \<Rightarrow>
          (case map_of al l of
             None \<Rightarrow> label # alias_labels al rest
           | Some a \<Rightarrow>
               if a = py ''DELETED'' then alias_labels al rest
               else if a \<noteq> py ''same'' then Some a # label # alias_labels al rest
               else label # alias_labels al rest))"

text \<open>
  \<open>self.projects[self.jira_project]['Milestones'][name]\<close>; \<open>Milestones\<close> is a
  \<open>defaultdict(int)\<close>, which binds a missing key to 0.
\<close>

definition lookup_milestone :: "pytext \<Rightarrow> state \<Rightarrow> error + (int option \<times> state)" where
  "lookup_milestone name st =
     (case map_of (projects st) (Some (jira_project st)) of
        None \<Rightarrow> Inl KeyError
      | Some p \<Rightarrow>
          (case map_of (Milestones p) name of
             Some v \<Rightarrow> Inr (v, st)
           | None \<Rightarrow>
               Inr (Some 0,
                    st\<lparr>projects :=
                         AList.update (Some (jira_project st))
                           (p\<lparr>Milestones := AList.update name (Some 0) (Milestones p)\<rparr>)
                           (projects st)\<rparr>)))"

definition bar_update :: "nat \<Rightarrow> state \<Rightarrow> state" where
  "bar_update n st = st\<lparr>bar_values := bar_values st @ [n]\<rparr>"

text \<open>
  The part of the loop body from \<open>if len(self.aliases) != 0\<close> on. \<open>result\<close> is
  computed and not used again.
\<close>

definition submit :: "remote \<Rightarrow> nat \<Rightarrow> issue \<Rightarrow> state \<Rightarrow> error option \<times> issue \<times> state" where
  "submit remote index i st =
     (let result = (if aliases st \<noteq> [] then alias_labels (aliases st) (labels i) else [])
      in case comments i of
           None \<Rightarrow> (Some KeyError, i, st)
         | Some cs \<Rightarrow>
             (let i1 = i\<lparr>comments := None\<rparr>;
                  (r, st1) = save_issue remote i1 cs st
              in case r of
                   Inl e \<Rightarrow> (Some e, i1, st1)
                 | Inr v \<Rightarrow>
                     (None, i1,
                      bar_update index
                        (if v = Some False
                         then st1\<lparr>cant_migrate := cant_migrate st1 @ [CantTitle (title i1)]\<rparr>
                         else st1))))"

text \<open>
  The body of the loop of \<open>migrate\<close> for the issue at \<open>index\<close>: the error raised, if
  any, the issue as the body leaves it (the dict is changed in place), and the state.
\<close>

definition migrate_issue ::
  "remote \<Rightarrow> nat \<Rightarrow> issue \<Rightarrow> state \<Rightarrow> error option \<times> issue \<times> state" where
  "migrate_issue remote index i st =
     (if key i \<in> set (cached_data st) then (None, i, bar_update index st)
      else
        (case milestone_name i of
           None \<Rightarrow> submit remote index i st
         | Some name \<Rightarrow>
             (case lookup_milestone name st of
                Inl e \<Rightarrow> (Some e, i, st)
              | Inr (m, st1) \<Rightarrow>
                  (let i1 = i\<lparr>milestone := Some m\<rparr>
                   in if m = None
                      then (None, i1, st1\<lparr>cant_migrate := cant_migrate st1 @ [CantIssue i1]\<rparr>)
                      else submit remote index (i1\<lparr>milestone_name := None\<rparr>) st1))))"

fun migrate_loop ::
  "remote \<Rightarrow> nat \<Rightarrow> issue list \<Rightarrow> state \<Rightarrow> error option \<times> issue list \<times> state" where
  "migrate_loop remote index [] st = (None, [], st)"
| "migrate_loop remote index (i # rest) st =
     (case migrate_issue remote index i st of
        (Some e, i', st1) \<Rightarrow> (Some e, i' # rest, st1)
      | (None, i', st1) \<Rightarrow>
          (case migrate_loop remote (Suc index) rest st1 of
             (e, rest', st2) \<Rightarrow> (e, i' # rest', st2)))"

text \<open>
  \<open>migrate\<close>: the progress bar and \<open>cant_migrate\<close> start empty; the issues changed by
  the loop are those of the project, so they are put back into it.
\<close>

definition store_issues :: "issue list \<Rightarrow> state \<Rightarrow> state" where
  "store_issues is st =
     (case map_of (projects st) (Some (jira_project st)) of
        None \<Rightarrow> st
      | Some p \<Rightarrow>
          st\<lparr>projects :=
               AList.update (Some (jira_project st)) (p\<lparr>Issues := is\<rparr>) (projects st)\<rparr>)"

definition migrate :: "remote \<Rightarrow> state \<Rightarrow> error option \<times> state" where
  "migrate remote st =
     (case map_of (projects st) (Some (jira_project st)) of
        None \<Rightarrow> (Some KeyError, st)
      | Some p \<Rightarrow>
          (case migrate_loop remote 0 (Issues p) (st\<lparr>bar_values := [], cant_migrate := []\<rparr>) of
             (Some e, is, st1) \<Rightarrow> (Some e, store_issues is st1)
           | (None, is, st1) \<Rightarrow>
               (None, bar_update (length (Issues p)) (store_issues is st1))))"

text \<open>
  The driver as the main program runs it: the milestones are resolved, then the
  issues are migrated. A later run is a new process on the same export: it starts
  from the state that extraction gave, with the cache read back from the file that
  the earlier run left.
\<close>

definition drive :: "remote \<Rightarrow> state \<Rightarrow> error option \<times> state" where
  "drive remote st =
     (case milestones remote st of
        (Some e, st1) \<Rightarrow> (Some e, st1)
      | (None, st1) \<Rightarrow> migrate remote st1)"

definition rerun :: "state \<Rightarrow> state \<Rightarrow> state" where
  "rerun st after =
     set_cache_path (st\<lparr>cached_data := [], cache_file := cache_file after, sent := sent after\<rparr>)"

definition is_creation :: "request \<times> response \<Rightarrow> bool" where
  "is_creation x = (case fst x of PostIssue i \<Rightarrow> True | _ \<Rightarrow> False)"

definition creations :: "state \<Rightarrow> nat" where
  "creations st = length (filter is_creation (sent st))"

text \<open>The keys that the cache file holds.\<close>

definition loaded :: "state \<Rightarrow> pytext list" where
  "loaded st = (case cache_file st of None \<Rightarrow> [] | Some ks \<Rightarrow> ks)"

text \<open>The issues of the configured project.\<close>

definition issues_of :: "state \<Rightarrow> issue list" where
  "issues_of st =
     (case map_of (projects st) (Some (jira_project st)) of None \<Rightarrow> [] | Some p \<Rightarrow> Issues p)"

definition is_comment :: "request \<times> response \<Rightarrow> bool" where
  "is_comment x = (case fst x of PostComment n t \<Rightarrow> True | _ \<Rightarrow> False)"

text \<open>
  Every request of a log is made for an issue that is not cached: it is the creation
  request of one of the issues given whose key is not in the cache given, or a comment
  request that follows such a creation answered 201 with no other creation in
  between (\<open>created\<close> says whether the log so far ends that way).
\<close>

fun for_uncached ::
  "pytext list \<Rightarrow> issue list \<Rightarrow> bool \<Rightarrow> (request \<times> response) list \<Rightarrow> bool" where
  "for_uncached cache is created [] = True"
| "for_uncached cache is created ((q, r) # rest) =
     (case q of
        PostIssue j \<Rightarrow>
          key j \<notin> set cache \<and> key j \<in> key ` set is
          \<and> for_uncached cache is (status_code r = 201) rest
      | PostComment n t \<Rightarrow> created \<and> for_uncached cache is created rest
      | GetMilestones \<Rightarrow> False)"

text \<open>
  An issue that the loop diverts to \<open>cant_migrate\<close>: its milestone name is bound to
  \<open>None\<close> in \<open>Milestones\<close>.
\<close>

definition diverted :: "state \<Rightarrow> issue \<Rightarrow> bool" where
  "diverted st i =
     (case milestone_name i of
        None \<Rightarrow> False
      | Some name \<Rightarrow>
          (case map_of (projects st) (Some (jira_project st)) of
             None \<Rightarrow> False
           | Some p \<Rightarrow> map_of (Milestones p) name = Some None))"

text \<open>
  The keys of the issues, in order, for which a dry run calls \<open>_save_issue\<close> (which
  then returns \<open>True\<close>): the issues that are not cached when their turn comes and not
  diverted. The run ends at such an issue when it has no \<open>comments\<close> (KeyError).
\<close>

fun dry_keys :: "pytext list \<Rightarrow> (issue \<Rightarrow> bool) \<Rightarrow> issue list \<Rightarrow> pytext list" where
  "dry_keys cache d [] = []"
| "dry_keys cache d (i # rest) =
     (if key i \<in> set cache \<or> d i then dry_keys cache d rest
      else if comments i = None then []
      else key i # dry_keys (cache @ [key i]) d rest)"

text \<open>The keys of the creation requests of a log that were answered 201 (created).\<close>

fun created_keys :: "(request \<times> response) list \<Rightarrow> pytext list" where
  "created_keys [] = []"
| "created_keys ((q, r) # rest) =
     (case q of
        PostIssue i \<Rightarrow> (if status_code r = 201 then key i # created_keys rest
                        else created_keys rest)
      | _ \<Rightarrow> created_keys rest)"

text \<open>
  What the propositions below say of one exchange: a creation request is for one of
  the issues given and its key is not in the cache given.
\<close>

definition uncached_creation :: "pytext list \<Rightarrow> issue list \<Rightarrow> request \<times> response \<Rightarrow> bool" where
  "uncached_creation cache is x =
     (case fst x of
        PostIssue j \<Rightarrow> key j \<notin> set cache \<and> key j \<in> key ` set is
      | _ \<Rightarrow> True)"

text \<open>An entry of \<open>cant_migrate\<close> made for an unresolved milestone.\<close>

definition unresolved_entry :: "cant \<Rightarrow> bool" where
  "unresolved_entry x = (case x of CantIssue j \<Rightarrow> True | CantTitle t \<Rightarrow> False)"

text \<open>
  What a run of the loop over the issues \<open>is\<close> does to the cache, the cache file, the
  log and \<open>cant_migrate\<close>, when it ends with \<open>e\<close>.
\<close>

definition run_effect :: "issue list \<Rightarrow> error option \<Rightarrow> state \<Rightarrow> state \<Rightarrow> bool" where
  "run_effect is e st st' \<longleftrightarrow>
     (\<exists>log ks cm.
        sent st' = sent st @ log
      \<and> cached_data st' = cached_data st @ ks
      \<and> cant_migrate st' = cant_migrate st @ cm
      \<and> dry_run st' = dry_run st
      \<and> (dry_run st \<longrightarrow> log = [] \<and> list_all unresolved_entry cm)
      \<and> (\<not> dry_run st \<longrightarrow> ks = created_keys log)
      \<and> (cache_file st' = cache_file st \<and> ks = [] \<or> cache_file st' = Some (cached_data st'))
      \<and> list_all (uncached_creation (cached_data st) is) log
      \<and> (e = None \<and> cm = [] \<longrightarrow> key ` set is \<subseteq> set (cached_data st'))
      \<and> for_uncached (cached_data st) is False log)"

text \<open>Two issues with the same title, key, type and body.\<close>

definition same_head :: "issue \<Rightarrow> issue \<Rightarrow> bool" where
  "same_head y x \<longleftrightarrow>
     title y = title x \<and> key y = key x \<and> issue_type y = issue_type x \<and> body y = body x"

section \<open>Sample data\<close>

definition sample_table :: "(pystr \<times> nat) list" where
  "sample_table = [(py ''amp'', 38), (py ''lt'', 60), (py ''euro'', 8364)]"

definition ascii_digit :: "nat \<Rightarrow> bool" where
  "ascii_digit c = (48 \<le> c \<and> c \<le> 57)"

definition sample_item :: item where
  "sample_item =
     \<lparr>x_project = Some (Some (py ''PROJ'')),
      x_title = Some (Some (py ''Crash'')),
      x_type = Some (Some (py ''Bug'')),
      x_key = Some (Some (py ''PROJ-1'')),
      x_reporter = Some (Some (py ''ann'')),
      x_created = Some (Some (py ''Mon'')),
      x_resolved = None,
      x_description = Some None,
      x_status = Some (Some (py ''Open'')),
      x_fixVersion = None,
      x_component = None,
      x_version = [],
      x_priority = None,
      x_labels = [],
      x_comments = []\<rparr>"

definition sample_issue :: issue where
  "sample_issue =
     \<lparr>title = Some (py ''Crash''), issue_type = Some (py ''Bug''),
      key = Some (py ''PROJ-1''), body = py ''text'',
      labels = [Some (py ''bug''), Some (py ''feature''), Some (py ''other'')],
      comments = Some [py ''first''],
      milestone_name = None, milestone = None\<rparr>"

definition sample_state :: "project \<Rightarrow> state" where
  "sample_state p = (init (py ''PROJ'') None)\<lparr>projects := [(Some (py ''PROJ''), p)]\<rparr>"

definition created_remote :: remote where
  "created_remote log req = \<lparr>status_code = 201, content = Number (py ''7''), titles = []\<rparr>"

definition failing_remote :: remote where
  "failing_remote log req = \<lparr>status_code = 500, content = NoNumber, titles = []\<rparr>"

definition one_issue :: state where
  "one_issue = sample_state (empty_project\<lparr>Issues := [sample_issue]\<rparr>)"

definition milestone_state :: state where
  "milestone_state = sample_state (empty_project
     \<lparr>Milestones := [(Some (py ''v1''), Some 1)],
      Issues := [sample_issue\<lparr>milestone_name := Some (Some (py ''v1''))\<rparr>]\<rparr>)"

text \<open>A dry run over two issues, the first with a milestone that the listing lacks.\<close>

definition dry_two :: state where
  "dry_two = (sample_state (empty_project
     \<lparr>Milestones := [(Some (py ''v1''), Some 1)],
      Issues := [sample_issue\<lparr>milestone_name := Some (Some (py ''v1''))\<rparr>,
                 sample_issue\<lparr>key := Some (py ''PROJ-2'')\<rparr>]\<rparr>))\<lparr>dry_run := True\<rparr>"

text \<open>
  An item of another project that has no \<open>project\<close> element, a second item of the
  configured project, and the states after the first item and after each of the two.
\<close>

definition other_item :: item where
  "other_item = sample_item\<lparr>x_project := None, x_key := Some (Some (py ''OTHER-7''))\<rparr>"

definition next_item :: item where
  "next_item = sample_item\<lparr>x_key := Some (Some (py ''PROJ-2''))\<rparr>"

definition after_one :: state where
  "after_one = projr (add_all ascii_digit sample_table [sample_item] (init (py ''PROJ'') None))"

definition after_other :: state where
  "after_other = projr (add_to_projects ascii_digit sample_table other_item after_one)"

definition after_next :: state where
  "after_next = projr (add_to_projects ascii_digit sample_table next_item after_one)"

section \<open>HTML entity decoding refines its reference definition\<close>

lemma replicate8: "replicate 8 (32::nat) = [32, 32, 32, 32, 32, 32, 32, 32]"
  by (simp add: numeral_eq_Suc)

lemma str_replace_collapse8: "str_replace (replicate 8 32) [] s = collapse8 s"
  unfolding replicate8
  by (induction s rule: collapse8.induct) auto

lemma take_semi:
  assumes "59 \<notin> set n"
  shows "take (length n + 1) s = n @ [59] \<longleftrightarrow>
         takeWhile (\<lambda>x. x \<noteq> 59) s = n \<and>
         dropWhile (\<lambda>x. x \<noteq> 59) s = 59 # drop (length n + 1) s"
  using assms
proof (induction n arbitrary: s)
  case Nil
  then show ?case by (cases s) auto
next
  case (Cons a n)
  then show ?case by (cases s) auto
qed

lemma dropWhile_semi:
  "dropWhile (\<lambda>x. x \<noteq> (59::nat)) s = c # rest \<Longrightarrow>
   c = 59 \<and> rest = drop (length (takeWhile (\<lambda>x. x \<noteq> 59) s) + 1) s"
  by (induction s) (auto split: if_splits)

text \<open>
  When no name holds a semicolon, the ordered alternation finds the name that runs up
  to the next semicolon, if the table has it.
\<close>

lemma match_entity_char:
  assumes "\<forall>(n, cp) \<in> set tbl. 59 \<notin> set n"
  shows "match_entity tbl s =
     (case dropWhile (\<lambda>x. x \<noteq> 59) s of
        [] \<Rightarrow> None
      | semi # rest \<Rightarrow>
          map_option (\<lambda>cp. (cp, rest)) (map_of tbl (takeWhile (\<lambda>x. x \<noteq> 59) s)))"
  using assms
proof (induction tbl)
  case Nil
  then show ?case by (simp split: list.splits)
next
  case (Cons p tbl)
  obtain n cp where p: "p = (n, cp)" by (cases p)
  from Cons.prems p have n: "59 \<notin> set n" by simp
  from Cons have IH: "match_entity tbl s =
     (case dropWhile (\<lambda>x. x \<noteq> 59) s of
        [] \<Rightarrow> None
      | semi # rest \<Rightarrow>
          map_option (\<lambda>cp. (cp, rest)) (map_of tbl (takeWhile (\<lambda>x. x \<noteq> 59) s)))"
    by simp
  show ?case
  proof (cases "take (length n + 1) s = n @ [59]")
    case True
    with take_semi[OF n, of s] show ?thesis by (simp add: p)
  next
    case False
    show ?thesis
    proof (cases "dropWhile (\<lambda>x. x \<noteq> 59) s")
      case Nil
      show ?thesis unfolding Nil using False IH[unfolded Nil] by (simp add: p)
    next
      case (Cons c rest)
      from dropWhile_semi[OF Cons] have c: "c = 59"
        and r: "rest = drop (length (takeWhile (\<lambda>x. x \<noteq> 59) s) + 1) s" by auto
      have "takeWhile (\<lambda>x. x \<noteq> 59) s \<noteq> n"
      proof
        assume e: "takeWhile (\<lambda>x. x \<noteq> 59) s = n"
        with Cons c r have "dropWhile (\<lambda>x. x \<noteq> 59) s = 59 # drop (length n + 1) s"
          by simp
        with e take_semi[OF n, of s] False show False by simp
      qed
      with False IH Cons show ?thesis by (simp add: p)
    qed
  qed
qed

lemma entity_sub_decode_named:
  assumes "\<forall>(n, cp) \<in> set tbl. 59 \<notin> set n"
  shows "entity_sub tbl s = decode_named tbl s"
proof (induction s rule: length_induct)
  case (1 s)
  show ?case
  proof (cases s)
    case Nil
    then show ?thesis by simp
  next
    case s: (Cons c cs)
    have IHcs: "entity_sub tbl cs = decode_named tbl cs"
      using 1 s by simp
    show ?thesis
    proof (cases "c = 38")
      case False
      with IHcs s show ?thesis by simp
    next
      case amp: True
      show ?thesis
      proof (cases "dropWhile (\<lambda>x. x \<noteq> 59) cs")
        case Nil
        have m: "match_entity tbl cs = None"
          by (simp add: match_entity_char[OF assms] Nil)
        show ?thesis
          unfolding s entity_sub.simps decode_named.simps m Nil by (simp add: amp IHcs)
      next
        case (Cons semi rest)
        have "length (dropWhile (\<lambda>x. x \<noteq> 59) cs) \<le> length cs"
          by (rule length_dropWhile_le)
        with Cons s have "length rest < length s" by simp
        with 1 have IHrest: "entity_sub tbl rest = decode_named tbl rest" by simp
        show ?thesis
        proof (cases "map_of tbl (takeWhile (\<lambda>x. x \<noteq> 59) cs)")
          case None
          have m: "match_entity tbl cs = None"
            by (simp add: match_entity_char[OF assms] Cons None)
          show ?thesis
            unfolding s entity_sub.simps decode_named.simps m Cons None
            by (simp add: amp IHcs)
        next
          case (Some cp)
          have m: "match_entity tbl cs = Some (cp, rest)"
            by (simp add: match_entity_char[OF assms] Cons Some)
          show ?thesis
            unfolding s entity_sub.simps decode_named.simps m Cons Some
            by (simp add: amp IHrest)
        qed
      qed
    qed
  qed
qed

text \<open>
  Claim C7. The HTML entity decoding function equals the reference definition: a null
  input gives the empty string, and otherwise eight consecutive spaces are collapsed
  to nothing, then every recognised named entity is replaced by its character and
  anything else is left unchanged. The entity table is any table whose names hold no
  semicolon, as those of Python's \<open>name2codepoint\<close> do.
\<close>

theorem htmlentitydecode_refines:
  assumes "\<forall>(n, cp) \<in> set name2codepoint. 59 \<notin> set n"
  shows "htmlentitydecode name2codepoint s = htmlentitydecode_ref name2codepoint s
         \<and> htmlentitydecode name2codepoint None = []"
  by (simp add: htmlentitydecode_def htmlentitydecode_ref_def str_replace_collapse8
        entity_sub_decode_named[OF assms] split: option.splits)

theorem htmlentitydecode_refines_witness:
  "htmlentitydecode sample_table (Some (py ''&amp;         &zz;'')) = py ''& &zz;''
   \<and> htmlentitydecode sample_table None = []"
proof -
  have h: "\<forall>(n, cp) \<in> set sample_table. 59 \<notin> set n"
    by (simp add: sample_table_def py_def)
  have e: "htmlentitydecode_ref sample_table (Some (py ''&amp;         &zz;'')) = py ''& &zz;''"
    by (simp add: htmlentitydecode_ref_def sample_table_def py_def)
  from htmlentitydecode_refines[OF h, of "Some (py ''&amp;         &zz;'')"] e
  show ?thesis by simp
qed

section \<open>Runs on sample data\<close>

text \<open>
  Claim C6. A version is added to \<open>Labels\<close> and to the labels of the issue if and only
  if it is four runs of digits separated by literal dots. The code does not keep this:
  the dots of its pattern are not escaped, so the version \<open>1-2-3-4\<close>, which is not of
  the strict form, matches and is added to both, whatever the digits of the Unicode
  table are beyond the ASCII ones.
\<close>

theorem version_filter_accepts_non_dots:
  assumes "\<forall>c. 48 \<le> c \<and> c \<le> 57 \<longrightarrow> isdigit c"
  shows "version_matches isdigit (Some (py ''1-2-3-4'')) = Inr True
   \<and> \<not> strict_version (py ''1-2-3-4'')
   \<and> (case add_to_projects isdigit sample_table
              (sample_item\<lparr>x_version := [Some (py ''1-2-3-4'')]\<rparr>) (init (py ''PROJ'') None) of
         Inl e \<Rightarrow> None
       | Inr st \<Rightarrow> map_option (\<lambda>p. (Labels p, map labels (Issues p)))
                    (map_of (projects st) (Some (py ''PROJ''))))
     = Some ([(Some (py ''1-2-3-4''), 1)],
             [[Some (py ''Open''), Some (py ''Bug''), Some (py ''1-2-3-4'')]])"
proof -
  have d: "isdigit 49" "isdigit 50" "isdigit 51" "isdigit 52"
    using assms by simp_all
  have vm: "version_matches isdigit (Some (py ''1-2-3-4'')) = Inr True"
    by (simp add: version_matches_def version_re_def Plus_def Dollar_def py_def Let_def d)
  have sv: "\<not> strict_version (py ''1-2-3-4'')"
    by code_simp
  have ex: "(case add_to_projects isdigit sample_table
              (sample_item\<lparr>x_version := [Some (py ''1-2-3-4'')]\<rparr>) (init (py ''PROJ'') None) of
         Inl e \<Rightarrow> None
       | Inr st \<Rightarrow> map_option (\<lambda>p. (Labels p, map labels (Issues p)))
                    (map_of (projects st) (Some (py ''PROJ''))))
     = Some ([(Some (py ''1-2-3-4''), 1)],
             [[Some (py ''Open''), Some (py ''Bug''), Some (py ''1-2-3-4'')]])"
    by (simp add: add_to_projects_def derived_key_def sample_item_def init_def bind_err_def
          resolved_at_def make_issue_def elem_text_def elem_str_def add_item_def
          add_fixVersion_def add_component_def add_priority_def append_label_def upd_last_def
          incr_def empty_project_def vm)
  from vm sv ex show ?thesis by simp
qed

theorem version_filter_accepts_non_dots_witness:
  "version_matches ascii_digit (Some (py ''1-2-3-4'')) = Inr True
   \<and> \<not> strict_version (py ''1-2-3-4'')
   \<and> (case add_to_projects ascii_digit sample_table
              (sample_item\<lparr>x_version := [Some (py ''1-2-3-4'')]\<rparr>) (init (py ''PROJ'') None) of
         Inl e \<Rightarrow> None
       | Inr st \<Rightarrow> map_option (\<lambda>p. (Labels p, map labels (Issues p)))
                    (map_of (projects st) (Some (py ''PROJ''))))
     = Some ([(Some (py ''1-2-3-4''), 1)],
             [[Some (py ''Open''), Some (py ''Bug''), Some (py ''1-2-3-4'')]])"
proof -
  have h: "\<forall>c. 48 \<le> c \<and> c \<le> 57 \<longrightarrow> ascii_digit c"
    by (simp add: ascii_digit_def)
  from version_filter_accepts_non_dots[OF h] show ?thesis .
qed

text \<open>
  Claim C1. With a non-empty alias mapping the submitted issue carries the adjusted
  labels: with \<open>bug\<close> mapped to \<open>DELETED\<close> and \<open>feature\<close> to \<open>enhancement\<close>, the labels
  \<open>bug\<close>, \<open>feature\<close>, \<open>other\<close> are submitted without \<open>bug\<close> and with \<open>enhancement\<close>.
  The code does not keep this: it computes the adjusted list and submits the issue
  with its labels as they were.
\<close>

theorem alias_result_not_submitted:
  "alias_labels [(py ''bug'', py ''DELETED''), (py ''feature'', py ''enhancement'')]
     (labels sample_issue) = [Some (py ''enhancement''), Some (py ''feature''), Some (py ''other'')]
   \<and> map fst (sent (snd (migrate created_remote
        ((sample_state (empty_project\<lparr>Issues := [sample_issue]\<rparr>))
           \<lparr>aliases := [(py ''bug'', py ''DELETED''), (py ''feature'', py ''enhancement'')]\<rparr>))))
     = [PostIssue (sample_issue\<lparr>comments := None\<rparr>), PostComment (py ''7'') (py ''first'')]
   \<and> labels (sample_issue\<lparr>comments := None\<rparr>)
     = [Some (py ''bug''), Some (py ''feature''), Some (py ''other'')]"
  by code_simp

text \<open>
  Claim C5. A progress update is issued after every issue whatever its outcome, and
  one more after the loop with the number of issues. The code does not keep this for
  an issue whose milestone is unresolved: of two issues, the first with an unresolved
  milestone, only the second (index 1) and the end of the loop (2) are reported, while
  a first issue that is skipped because it is cached is reported (index 0).
\<close>

theorem no_progress_update_for_unresolved_milestone:
  "bar_values (snd (migrate created_remote
      (sample_state (empty_project
         \<lparr>Milestones := [(Some (py ''v1''), None)],
          Issues := [sample_issue\<lparr>milestone_name := Some (Some (py ''v1''))\<rparr>,
                     sample_issue\<lparr>key := Some (py ''PROJ-2'')\<rparr>]\<rparr>)))) = [1, 2]
   \<and> bar_values (snd (migrate created_remote
      ((sample_state (empty_project
         \<lparr>Issues := [sample_issue, sample_issue\<lparr>key := Some (py ''PROJ-2'')\<rparr>]\<rparr>))
       \<lparr>cached_data := [Some (py ''PROJ-1'')]\<rparr>))) = [0, 1, 2]"
  by code_simp

section \<open>What a run of the loop does\<close>

lemma is_creation_simps [simp]:
  "is_creation (PostIssue i, r)"
  "\<not> is_creation (PostComment n c, r)"
  "\<not> is_creation (GetMilestones, r)"
  by (simp_all add: is_creation_def)

lemma lookup_milestone_frame:
  "lookup_milestone name st = Inr (m, stm) \<Longrightarrow> stm = st\<lparr>projects := projects stm\<rparr>"
  by (auto simp: lookup_milestone_def split: option.splits)

lemma is_comment_simps [simp]:
  "is_comment (PostComment n c, r)"
  "\<not> is_comment (PostIssue i, r)"
  "\<not> is_comment (GetMilestones, r)"
  by (simp_all add: is_comment_def)

lemma post_comments_frame:
  "post_comments remote c cs st = (res, st') \<Longrightarrow>
   \<exists>log. st' = st\<lparr>sent := sent st @ log\<rparr> \<and> \<not> list_ex is_creation log
         \<and> res \<noteq> Inr (Some False) \<and> list_all is_comment log"
proof (induction cs arbitrary: st)
  case Nil
  then have "st' = st\<lparr>sent := sent st @ []\<rparr> \<and> \<not> list_ex is_creation [] \<and> res \<noteq> Inr (Some False)
      \<and> list_all is_comment []"
    by auto
  then show ?case by blast
next
  case (Cons comment rest)
  show ?case
  proof (cases c)
    case (Number n)
    define x where "x = (PostComment n comment, remote (sent st) (PostComment n comment))"
    from Cons.prems Number
    have "post_comments remote c rest (st\<lparr>sent := sent st @ [x]\<rparr>) = (res, st')"
      by (simp add: send_def x_def Let_def)
    from Cons.IH[OF this] obtain log where
      l: "st' = st\<lparr>sent := sent st @ [x]\<rparr>\<lparr>sent := sent (st\<lparr>sent := sent st @ [x]\<rparr>) @ log\<rparr>"
      "\<not> list_ex is_creation log" "res \<noteq> Inr (Some False)" "list_all is_comment log" by blast
    then have "st' = st\<lparr>sent := sent st @ (x # log)\<rparr> \<and> \<not> list_ex is_creation (x # log)
        \<and> res \<noteq> Inr (Some False) \<and> list_all is_comment (x # log)"
      by (simp add: x_def)
    then show ?thesis by blast
  next
    case NotJSON
    with Cons.prems have "st' = st\<lparr>sent := sent st @ []\<rparr> \<and> \<not> list_ex is_creation [] \<and> res \<noteq> Inr (Some False)
        \<and> list_all is_comment []"
      by auto
    then show ?thesis by blast
  next
    case NotObject
    with Cons.prems have "st' = st\<lparr>sent := sent st @ []\<rparr> \<and> \<not> list_ex is_creation [] \<and> res \<noteq> Inr (Some False)
        \<and> list_all is_comment []"
      by auto
    then show ?thesis by blast
  next
    case NoNumber
    with Cons.prems have "st' = st\<lparr>sent := sent st @ []\<rparr> \<and> \<not> list_ex is_creation [] \<and> res \<noteq> Inr (Some False)
        \<and> list_all is_comment []"
      by auto
    then show ?thesis by blast
  qed
qed

lemma save_issue_cases:
  assumes "save_issue remote i cs st = (res, st')"
  obtains
    (dry) "dry_run st" "res = Inr (Some True)" "st' = save_cache i st"
  | (failed) "\<not> dry_run st" "status_code (remote (sent st) (PostIssue i)) \<noteq> 201"
      "res = Inr (Some False)"
      "st' = st\<lparr>sent := sent st @ [(PostIssue i, remote (sent st) (PostIssue i))]\<rparr>"
  | (created) log where "\<not> dry_run st" "status_code (remote (sent st) (PostIssue i)) = 201"
      "res \<noteq> Inr (Some False)" "\<not> list_ex is_creation log"
      "st' = save_cache i (st\<lparr>sent := sent st @ (PostIssue i, remote (sent st) (PostIssue i)) # log\<rparr>)"
      "list_all is_comment log"
proof (cases "dry_run st")
  case True
  with assms show ?thesis by (intro dry) (auto simp: save_issue_def)
next
  case nd: False
  define r where "r = remote (sent st) (PostIssue i)"
  show ?thesis
  proof (cases "status_code r = 201")
    case False
    with assms nd show ?thesis
      by (intro failed) (auto simp: save_issue_def send_def r_def Let_def)
  next
    case True
    define st2 where "st2 = save_cache i (st\<lparr>sent := sent st @ [(PostIssue i, r)]\<rparr>)"
    show ?thesis
    proof (cases "content r = NotJSON")
      case nj: True
      with assms nd True have "res = Inl ValueError" "st' = st2"
        by (auto simp: save_issue_def send_def r_def st2_def Let_def)
      then show ?thesis
        using nd True by (intro created[of "[]"]) (auto simp: r_def st2_def)
    next
      case False
      with assms nd True have "post_comments remote (content r) cs st2 = (res, st')"
        by (auto simp: save_issue_def send_def r_def st2_def Let_def split: content.splits)
      from post_comments_frame[OF this] obtain log where
        l: "st' = st2\<lparr>sent := sent st2 @ log\<rparr>" "\<not> list_ex is_creation log" "res \<noteq> Inr (Some False)"
        "list_all is_comment log"
        by blast
      show ?thesis
        using nd True l by (intro created[of log]) (auto simp: r_def st2_def save_cache_def Let_def)
    qed
  qed
qed


lemma submit_cases:
  assumes "submit remote index j st = (e, i', st')"
  obtains
    (no_comments) "comments j = None" "e = Some KeyError" "i' = j" "st' = st"
  | (dry) "i' = j\<lparr>comments := None\<rparr>" "dry_run st" "e = None"
      "st' = bar_update index (save_cache i' st)"
  | (failed) "i' = j\<lparr>comments := None\<rparr>" "\<not> dry_run st"
      "status_code (remote (sent st) (PostIssue i')) \<noteq> 201" "e = None"
      "st' = bar_update index
         (st\<lparr>sent := sent st @ [(PostIssue i', remote (sent st) (PostIssue i'))],
             cant_migrate := cant_migrate st @ [CantTitle (title j)]\<rparr>)"
  | (created) log where "i' = j\<lparr>comments := None\<rparr>" "\<not> dry_run st"
      "status_code (remote (sent st) (PostIssue i')) = 201" "\<not> list_ex is_creation log"
      "st' = (if e = None then bar_update index else id)
         (save_cache i' (st\<lparr>sent := sent st @ (PostIssue i', remote (sent st) (PostIssue i')) # log\<rparr>))"
      "list_all is_comment log"
proof (cases "comments j")
  case None
  with assms show ?thesis by (intro no_comments) (auto simp: submit_def)
next
  case (Some cs)
  define j1 where "j1 = j\<lparr>comments := None\<rparr>"
  obtain res stS where sv: "save_issue remote j1 cs st = (res, stS)"
    by (cases "save_issue remote j1 cs st")
  from assms Some sv have i': "i' = j1"
    by (auto simp: submit_def j1_def Let_def split: sum.splits)
  from assms Some sv have e: "e = (case res of Inl x \<Rightarrow> Some x | Inr v \<Rightarrow> None)"
    by (auto simp: submit_def j1_def Let_def split: sum.splits)
  from assms Some sv have st': "st' = (case res of Inl x \<Rightarrow> stS
       | Inr v \<Rightarrow> bar_update index (if v = Some False
            then stS\<lparr>cant_migrate := cant_migrate stS @ [CantTitle (title j1)]\<rparr> else stS))"
    by (auto simp: submit_def j1_def Let_def split: sum.splits)
  from sv show ?thesis
  proof (cases rule: save_issue_cases)
    case dry
    then show ?thesis using i' e st' by (intro that(2)) (auto simp: j1_def)
  next
    case failed
    then show ?thesis using i' e st'
      by (intro that(3)) (auto simp: j1_def bar_update_def)
  next
    case (created log)
    then show ?thesis using i' e st'
      by (intro that(4)[of log]) (auto simp: j1_def split: sum.splits)
  qed
qed

lemma migrate_issue_cases:
  assumes "migrate_issue remote index i st = (e, i', st')"
  obtains
    (skipped) "key i \<in> set (cached_data st)" "e = None" "i' = i" "st' = bar_update index st"
  | (lookup_error) "key i \<notin> set (cached_data st)" "e \<noteq> None" "i' = i" "st' = st"
  | (unresolved) name stm where "key i \<notin> set (cached_data st)"
      "milestone_name i = Some name" "lookup_milestone name st = Inr (None, stm)"
      "e = None" "i' = i\<lparr>milestone := Some None\<rparr>"
      "st' = stm\<lparr>cant_migrate := cant_migrate stm @ [CantIssue i']\<rparr>"
  | (no_comments) stm where "key i \<notin> set (cached_data st)" "stm = st\<lparr>projects := projects stm\<rparr>"
      "e = Some KeyError" "st' = stm"
  | (dry) stm where "key i \<notin> set (cached_data st)" "stm = st\<lparr>projects := projects stm\<rparr>"
      "key i' = key i" "dry_run st" "e = None"
      "st' = bar_update index (save_cache i' stm)"
  | (failed) stm where "key i \<notin> set (cached_data st)" "stm = st\<lparr>projects := projects stm\<rparr>"
      "key i' = key i" "\<not> dry_run st"
      "status_code (remote (sent st) (PostIssue i')) \<noteq> 201" "e = None"
      "st' = bar_update index
         (stm\<lparr>sent := sent st @ [(PostIssue i', remote (sent st) (PostIssue i'))],
             cant_migrate := cant_migrate st @ [CantTitle (title i)]\<rparr>)"
  | (created) stm log where "key i \<notin> set (cached_data st)" "stm = st\<lparr>projects := projects stm\<rparr>"
      "key i' = key i" "\<not> dry_run st"
      "status_code (remote (sent st) (PostIssue i')) = 201" "\<not> list_ex is_creation log"
      "st' = (if e = None then bar_update index else id)
         (save_cache i' (stm\<lparr>sent := sent st @ (PostIssue i', remote (sent st) (PostIssue i')) # log\<rparr>))"
      "list_all is_comment log"
proof (cases "key i \<in> set (cached_data st)")
  case True
  with assms show ?thesis by (intro skipped) (auto simp: migrate_issue_def)
next
  case nc: False
  note r_nc = no_comments and r_dry = dry and r_failed = failed and r_created = created
  have sub: thesis if s: "submit remote index j stm = (e, i', st')"
    and f: "stm = st\<lparr>projects := projects stm\<rparr>" and k: "key j = key i" and t: "title j = title i"
    for j stm
    using s
  proof (cases rule: submit_cases)
    case no_comments
    then show ?thesis using nc f by (intro r_nc[of stm]) auto
  next
    case dry
    have "dry_run st" using dry(2) by (subst (asm) f) simp
    then show ?thesis using dry nc f k by (intro r_dry[of stm]) auto
  next
    case failed
    have d: "\<not> dry_run st" using failed(2) by (subst (asm) f) simp
    have se: "sent stm = sent st" "cant_migrate stm = cant_migrate st" by (subst f, simp)+
    show ?thesis using failed nc f k t d se
      by (intro r_failed[of stm]) auto
  next
    case (created log)
    have d: "\<not> dry_run st" using created(2) by (subst (asm) f) simp
    have se: "sent stm = sent st" by (subst f, simp)
    show ?thesis using created nc f k d se
      by (intro r_created[of stm log]) auto
  qed
  show ?thesis
  proof (cases "milestone_name i")
    case None
    with assms nc have "submit remote index i st = (e, i', st')"
      by (simp add: migrate_issue_def)
    then show ?thesis by (rule sub) auto
  next
    case (Some name)
    show ?thesis
    proof (cases "lookup_milestone name st")
      case (Inl err)
      with assms nc Some show ?thesis
        by (intro lookup_error) (auto simp: migrate_issue_def)
    next
      case (Inr ms)
      obtain m stm where ms: "ms = (m, stm)" by (cases ms)
      note fr = lookup_milestone_frame[OF Inr[unfolded ms]]
      show ?thesis
      proof (cases m)
        case None
        with assms nc Some Inr ms show ?thesis
          by (intro unresolved[of name stm]) (auto simp: migrate_issue_def Let_def)
      next
        case (Some v)
        with assms nc \<open>milestone_name i = Some name\<close> Inr ms
        have "submit remote index (i\<lparr>milestone := Some m, milestone_name := None\<rparr>) stm = (e, i', st')"
          by (auto simp: migrate_issue_def Let_def)
        then show ?thesis using fr by (rule sub) auto
      qed
    qed
  qed
qed


lemma created_keys_append: "created_keys (xs @ ys) = created_keys xs @ created_keys ys"
  by (induction xs rule: created_keys.induct) (auto split: request.splits)

lemma created_keys_none: "\<not> list_ex is_creation log \<Longrightarrow> created_keys log = []"
  by (induction log rule: created_keys.induct) (auto split: request.splits)

lemma uncached_creation_none:
  "\<not> list_ex is_creation log \<Longrightarrow> list_all (uncached_creation c is) log"
  by (induction log) (auto simp: uncached_creation_def is_creation_def split: request.splits)

lemma uncached_creation_mono:
  "list_all (uncached_creation c is) log \<Longrightarrow> set c' \<subseteq> set c \<Longrightarrow> set is \<subseteq> set is' \<Longrightarrow>
   list_all (uncached_creation c' is') log"
  by (induction log) (auto simp: uncached_creation_def split: request.splits)

lemma for_uncached_flag:
  "for_uncached c is False log \<Longrightarrow> for_uncached c is b log"
  by (cases log) (auto split: request.splits)

lemma for_uncached_append:
  "for_uncached c is b xs \<Longrightarrow> for_uncached c is False ys \<Longrightarrow> for_uncached c is b (xs @ ys)"
proof (induction xs arbitrary: b)
  case Nil
  then show ?case by (simp add: for_uncached_flag)
next
  case (Cons x xs)
  obtain q r where x: "x = (q, r)" by (cases x)
  from Cons show ?case by (cases q) (auto simp: x)
qed

lemma for_uncached_mono:
  "for_uncached c is b log \<Longrightarrow> set c' \<subseteq> set c \<Longrightarrow> set is \<subseteq> set is' \<Longrightarrow>
   for_uncached c' is' b log"
proof (induction log arbitrary: b)
  case Nil
  then show ?case by simp
next
  case (Cons x xs)
  obtain q r where x: "x = (q, r)" by (cases x)
  from Cons show ?case by (cases q) (auto simp: x)
qed

lemma for_uncached_comments:
  "list_all is_comment log \<Longrightarrow> for_uncached c is True log"
proof (induction log)
  case Nil
  then show ?case by simp
next
  case (Cons x xs)
  obtain q r where x: "x = (q, r)" by (cases x)
  from Cons show ?case by (cases q) (auto simp: x is_comment_def)
qed

lemma for_uncached_all_cached:
  "for_uncached c is False log \<Longrightarrow> key ` set is \<subseteq> set c \<Longrightarrow> log = []"
proof (cases log)
  case Nil
  then show ?thesis by simp
next
  case (Cons x xs)
  obtain q r where x: "x = (q, r)" by (cases x)
  assume "for_uncached c is False log" "key ` set is \<subseteq> set c"
  with Cons x show ?thesis by (cases q) auto
qed

lemma run_effect_Nil: "run_effect [] None st st"
  by (auto simp: run_effect_def)

lemma run_effect_stop:
  assumes "run_effect [i] (Some err) st st1"
  shows "run_effect (i # rest) (Some err) st st1"
proof -
  from assms obtain log ks cm where h:
    "sent st1 = sent st @ log" "cached_data st1 = cached_data st @ ks"
    "cant_migrate st1 = cant_migrate st @ cm" "dry_run st1 = dry_run st"
    "dry_run st \<longrightarrow> log = [] \<and> list_all unresolved_entry cm"
    "\<not> dry_run st \<longrightarrow> ks = created_keys log"
    "cache_file st1 = cache_file st \<and> ks = [] \<or> cache_file st1 = Some (cached_data st1)"
    "list_all (uncached_creation (cached_data st) [i]) log"
    "for_uncached (cached_data st) [i] False log"
    unfolding run_effect_def by blast
  have u: "list_all (uncached_creation (cached_data st) (i # rest)) log"
    using h(8) by (rule uncached_creation_mono) auto
  have v: "for_uncached (cached_data st) (i # rest) False log"
    using h(9) by (rule for_uncached_mono) auto
  from h(1-7) u v show ?thesis unfolding run_effect_def by blast
qed

lemma run_effect_step:
  assumes "run_effect [i] None st st1" and "run_effect rest e st1 st2"
  shows "run_effect (i # rest) e st st2"
proof -
  from assms(1) obtain log ks cm where h:
    "sent st1 = sent st @ log" "cached_data st1 = cached_data st @ ks"
    "cant_migrate st1 = cant_migrate st @ cm" "dry_run st1 = dry_run st"
    "dry_run st \<longrightarrow> log = [] \<and> list_all unresolved_entry cm"
    "\<not> dry_run st \<longrightarrow> ks = created_keys log"
    "cache_file st1 = cache_file st \<and> ks = [] \<or> cache_file st1 = Some (cached_data st1)"
    "list_all (uncached_creation (cached_data st) [i]) log"
    "cm = [] \<longrightarrow> key ` set [i] \<subseteq> set (cached_data st1)"
    "for_uncached (cached_data st) [i] False log"
    unfolding run_effect_def by blast
  from assms(2) obtain log2 ks2 cm2 where g:
    "sent st2 = sent st1 @ log2" "cached_data st2 = cached_data st1 @ ks2"
    "cant_migrate st2 = cant_migrate st1 @ cm2" "dry_run st2 = dry_run st1"
    "dry_run st1 \<longrightarrow> log2 = [] \<and> list_all unresolved_entry cm2"
    "\<not> dry_run st1 \<longrightarrow> ks2 = created_keys log2"
    "cache_file st2 = cache_file st1 \<and> ks2 = [] \<or> cache_file st2 = Some (cached_data st2)"
    "list_all (uncached_creation (cached_data st1) rest) log2"
    "e = None \<and> cm2 = [] \<longrightarrow> key ` set rest \<subseteq> set (cached_data st2)"
    "for_uncached (cached_data st1) rest False log2"
    unfolding run_effect_def by blast
  have 1: "sent st2 = sent st @ (log @ log2)" using h g by simp
  have 2: "cached_data st2 = cached_data st @ (ks @ ks2)" using h g by simp
  have 3: "cant_migrate st2 = cant_migrate st @ (cm @ cm2)" using h g by simp
  have 4: "dry_run st2 = dry_run st" using h g by simp
  have 5: "dry_run st \<longrightarrow> log @ log2 = [] \<and> list_all unresolved_entry (cm @ cm2)"
    using h g by simp
  have 6: "\<not> dry_run st \<longrightarrow> ks @ ks2 = created_keys (log @ log2)"
    using h g by (simp add: created_keys_append)
  have 7: "cache_file st2 = cache_file st \<and> ks @ ks2 = [] \<or> cache_file st2 = Some (cached_data st2)"
    using h(7) g(7) g(2) by auto
  have "list_all (uncached_creation (cached_data st) (i # rest)) log"
    using h(8) by (rule uncached_creation_mono) auto
  moreover have "list_all (uncached_creation (cached_data st) (i # rest)) log2"
    using g(8) by (rule uncached_creation_mono) (auto simp: h(2))
  ultimately have 8: "list_all (uncached_creation (cached_data st) (i # rest)) (log @ log2)"
    by simp
  have 9: "e = None \<and> cm @ cm2 = [] \<longrightarrow> key ` set (i # rest) \<subseteq> set (cached_data st2)"
    using h(9) g(9) g(2) by auto
  have "for_uncached (cached_data st) (i # rest) False log"
    using h(10) by (rule for_uncached_mono) auto
  moreover have "for_uncached (cached_data st) (i # rest) False log2"
    using g(10) by (rule for_uncached_mono) (auto simp: h(2))
  ultimately have 10: "for_uncached (cached_data st) (i # rest) False (log @ log2)"
    by (rule for_uncached_append)
  from 1 2 3 4 5 6 7 8 9 10 show ?thesis unfolding run_effect_def by blast
qed

lemma run_effectI:
  assumes "sent st' = sent st @ log" "cached_data st' = cached_data st @ ks"
    "cant_migrate st' = cant_migrate st @ cm" "dry_run st' = dry_run st"
    "dry_run st \<longrightarrow> log = [] \<and> list_all unresolved_entry cm"
    "\<not> dry_run st \<longrightarrow> ks = created_keys log"
    "cache_file st' = cache_file st \<and> ks = [] \<or> cache_file st' = Some (cached_data st')"
    "list_all (uncached_creation (cached_data st) is) log"
    "e = None \<and> cm = [] \<longrightarrow> key ` set is \<subseteq> set (cached_data st')"
    "for_uncached (cached_data st) is False log"
  shows "run_effect is e st st'"
  using assms unfolding run_effect_def by blast

lemma frame_fields:
  assumes "stm = st\<lparr>projects := ps\<rparr>"
  shows "sent stm = sent st" "cached_data stm = cached_data st"
    "cant_migrate stm = cant_migrate st" "dry_run stm = dry_run st"
    "cache_file stm = cache_file st" "bar_values stm = bar_values st"
    "jira_project stm = jira_project st" "aliases stm = aliases st"
  using assms by simp_all

lemma migrate_issue_effect:
  assumes "migrate_issue remote index i st = (e, i', st')"
  shows "run_effect [i] e st st'"
  using assms
proof (cases rule: migrate_issue_cases)
  case skipped
  then show ?thesis
    by (intro run_effectI[of _ _ "[]" "[]" "[]"]) (auto simp: bar_update_def)
next
  case lookup_error
  then show ?thesis
    by (intro run_effectI[of _ _ "[]" "[]" "[]"]) auto
next
  case (unresolved name stm)
  note f = frame_fields[OF lookup_milestone_frame[OF unresolved(3)]]
  show ?thesis
    by (rule run_effectI[of _ _ "[]" "[]" "[CantIssue i']"])
       (simp_all add: unresolved f unresolved_entry_def)
next
  case (no_comments stm)
  note f = frame_fields[OF no_comments(2)]
  show ?thesis
    by (rule run_effectI[of _ _ "[]" "[]" "[]"]) (simp_all add: no_comments(3,4) f)
next
  case (dry stm)
  note f = frame_fields[OF dry(2)]
  show ?thesis
    by (rule run_effectI[of _ _ "[]" "[key i]" "[]"])
       (simp_all add: dry(3-) f bar_update_def save_cache_def Let_def)
next
  case (failed stm)
  note f = frame_fields[OF failed(2)]
  show ?thesis
    by (rule run_effectI[of _ _ "[(PostIssue i', remote (sent st) (PostIssue i'))]" "[]"
          "[CantTitle (title i)]"])
       (simp_all add: failed(1,3-) f bar_update_def uncached_creation_def)
next
  case (created stm log)
  note f = frame_fields[OF created(2)]
  have k: "created_keys ((PostIssue i', remote (sent st) (PostIssue i')) # log) = [key i]"
    using created by (simp add: created_keys_none)
  have u: "list_all (uncached_creation (cached_data st) [i])
             ((PostIssue i', remote (sent st) (PostIssue i')) # log)"
    using created(1,3) uncached_creation_none[OF created(6)]
    by (simp add: uncached_creation_def)
  have v: "for_uncached (cached_data st) [i] False
             ((PostIssue i', remote (sent st) (PostIssue i')) # log)"
    using created(1,3,5) for_uncached_comments[OF created(8)] by simp
  show ?thesis
    apply (rule run_effectI[of _ _ "(PostIssue i', remote (sent st) (PostIssue i')) # log"
          "[key i]" "[]"])
    using k u v
             apply (simp_all add: created(3,4,7) f bar_update_def save_cache_def Let_def)
    done
qed

lemma migrate_loop_effect:
  "migrate_loop remote index is st = (e, is', st') \<Longrightarrow> run_effect is e st st'"
proof (induction "is" arbitrary: index st e is' st')
  case Nil
  then show ?case by (simp add: run_effect_Nil)
next
  case (Cons i rest)
  obtain e1 i1 st1 where m: "migrate_issue remote index i st = (e1, i1, st1)"
    by (cases "migrate_issue remote index i st")
  note eff = migrate_issue_effect[OF m]
  show ?case
  proof (cases e1)
    case (Some err)
    with Cons.prems m have "e = Some err" "st' = st1" by auto
    with eff Some show ?thesis by (auto intro: run_effect_stop)
  next
    case None
    obtain e2 rest2 st2 where l: "migrate_loop remote (Suc index) rest st1 = (e2, rest2, st2)"
      by (cases "migrate_loop remote (Suc index) rest st1")
    with Cons.prems m None have "e = e2" "st' = st2" by auto
    with Cons.IH[OF l] eff None show ?thesis by (auto intro: run_effect_step)
  qed
qed

lemma run_effectE:
  assumes "run_effect is e st st'"
  obtains log ks cm where
    "sent st' = sent st @ log" "cached_data st' = cached_data st @ ks"
    "cant_migrate st' = cant_migrate st @ cm" "dry_run st' = dry_run st"
    "dry_run st \<longrightarrow> log = [] \<and> list_all unresolved_entry cm"
    "\<not> dry_run st \<longrightarrow> ks = created_keys log"
    "cache_file st' = cache_file st \<and> ks = [] \<or> cache_file st' = Some (cached_data st')"
    "list_all (uncached_creation (cached_data st) is) log"
    "e = None \<and> cm = [] \<longrightarrow> key ` set is \<subseteq> set (cached_data st')"
    "for_uncached (cached_data st) is False log"
  using assms unfolding run_effect_def by blast

lemma run_effect_frame:
  assumes "run_effect is e st sl"
    and "sent st0 = sent st" "cached_data st0 = cached_data st" "cant_migrate st0 = cant_migrate st"
      "dry_run st0 = dry_run st" "cache_file st0 = cache_file st"
    and "sent st' = sent sl" "cached_data st' = cached_data sl" "cant_migrate st' = cant_migrate sl"
      "dry_run st' = dry_run sl" "cache_file st' = cache_file sl"
  shows "run_effect is e st0 st'"
  using assms unfolding run_effect_def by simp

lemma store_issues_frame: "store_issues is st = st\<lparr>projects := projects (store_issues is st)\<rparr>"
  by (simp add: store_issues_def split: option.splits)

lemma migrate_cases:
  assumes "migrate remote st = (e, st')"
  obtains
    (no_project) "map_of (projects st) (Some (jira_project st)) = None"
      "e = Some KeyError" "st' = st"
  | (ran) p where "map_of (projects st) (Some (jira_project st)) = Some p"
      "run_effect (Issues p) e (st\<lparr>cant_migrate := []\<rparr>) st'"
proof (cases "map_of (projects st) (Some (jira_project st))")
  case None
  with assms show ?thesis by (intro no_project) (auto simp: migrate_def)
next
  case (Some p)
  define st0 where "st0 = st\<lparr>bar_values := [], cant_migrate := []\<rparr>"
  obtain e1 is1 sl where l: "migrate_loop remote 0 (Issues p) st0 = (e1, is1, sl)"
    by (cases "migrate_loop remote 0 (Issues p) st0")
  note eff = migrate_loop_effect[OF l]
  note sf = frame_fields[OF store_issues_frame[of is1 sl]]
  from assms Some l have e: "e = e1"
    by (cases e1) (auto simp: migrate_def st0_def)
  from assms Some l have st': "st' = (if e1 = None then bar_update (length (Issues p)) else id)
      (store_issues is1 sl)"
    by (cases e1) (auto simp: migrate_def st0_def)
  have "run_effect (Issues p) e (st\<lparr>cant_migrate := []\<rparr>) st'"
    using eff unfolding e
    by (rule run_effect_frame) (simp_all add: st0_def st' sf bar_update_def)
  with Some show ?thesis by (intro ran)
qed

lemma milestones_cases:
  assumes "milestones remote st = (e, st1)"
  obtains
    (no_project) "map_of (projects st) (Some (jira_project st)) = None" "e = Some KeyError"
      "st1 = st\<lparr>sent := sent st @ [(GetMilestones, remote (sent st) GetMilestones)]\<rparr>"
  | (resolved) p p1 where "map_of (projects st) (Some (jira_project st)) = Some p" "e = None"
      "map_of (projects st1) (Some (jira_project st1)) = Some p1" "Issues p1 = Issues p"
      "st1 = st\<lparr>sent := sent st @ [(GetMilestones, remote (sent st) GetMilestones)],
                projects := projects st1\<rparr>"
proof (cases "map_of (projects st) (Some (jira_project st))")
  case None
  with assms show ?thesis
    by (intro no_project) (auto simp: milestones_def send_def Let_def)
next
  case (Some p)
  with assms show ?thesis
    by (intro resolved[of p "p\<lparr>Milestones :=
          map (\<lambda>(mkey, v). if mkey \<in> set (titles (remote (sent st) GetMilestones))
                 then (mkey, v) else (mkey, None)) (Milestones p)\<rparr>"])
       (auto simp: milestones_def send_def Let_def update_conv')
qed

lemma drive_cases:
  assumes "drive remote st = (e, st')"
  obtains
    (no_project) "map_of (projects st) (Some (jira_project st)) = None" "e = Some KeyError"
      "st' = st\<lparr>sent := sent st @ [(GetMilestones, remote (sent st) GetMilestones)]\<rparr>"
  | (ran) p sm where "map_of (projects st) (Some (jira_project st)) = Some p"
      "sm = st\<lparr>sent := sent st @ [(GetMilestones, remote (sent st) GetMilestones)],
                projects := projects sm\<rparr>"
      "run_effect (Issues p) e (sm\<lparr>cant_migrate := []\<rparr>) st'"
proof -
  obtain e1 st1 where m: "milestones remote st = (e1, st1)"
    by (cases "milestones remote st")
  from m show ?thesis
  proof (cases rule: milestones_cases)
    case no_project
    with assms m show ?thesis by (intro that(1)) (auto simp: drive_def)
  next
    case (resolved p p1)
    with assms m have mg: "migrate remote st1 = (e, st')" by (simp add: drive_def)
    from mg show ?thesis
    proof (cases rule: migrate_cases)
      case no_project
      with resolved show ?thesis by simp
    next
      case (ran q)
      with resolved have "run_effect (Issues p) e (st1\<lparr>cant_migrate := []\<rparr>) st'" by simp
      with resolved show ?thesis by (intro that(2)[of p st1]) auto
    qed
  qed
qed

lemma rerun_fields:
  "cached_data (rerun st after) = loaded after" "sent (rerun st after) = sent after"
  "projects (rerun st after) = projects st" "jira_project (rerun st after) = jira_project st"
  "cache_file (rerun st after) = cache_file after"
  by (simp_all add: rerun_def set_cache_path_def loaded_def split: option.splits)

section \<open>Properties of the migration\<close>

text \<open>
  Claim C4. When the creation request made for an issue is answered with a status
  other than 201, the title of the issue is recorded in \<open>cant_migrate\<close>, the cache is
  left as it was, in memory and in the file, and the creation request is the only
  request made for the issue: no comment is sent.
\<close>

theorem failed_creation_recorded:
  assumes "migrate_issue remote index i st = (e, i', st')"
    and "(PostIssue j, r) \<in> set (drop (length (sent st)) (sent st'))"
    and "status_code r \<noteq> 201"
  shows "cant_migrate st' = cant_migrate st @ [CantTitle (title i)]
         \<and> cached_data st' = cached_data st
         \<and> cache_file st' = cache_file st
         \<and> sent st' = sent st @ [(PostIssue j, r)]"
  using assms(1)
proof (cases rule: migrate_issue_cases)
  case skipped
  with assms(2) show ?thesis by (simp add: bar_update_def)
next
  case lookup_error
  with assms(2) show ?thesis by simp
next
  case (unresolved name stm)
  note f = frame_fields[OF lookup_milestone_frame[OF unresolved(3)]]
  from assms(2) show ?thesis by (simp add: unresolved(6) f)
next
  case (no_comments stm)
  note f = frame_fields[OF no_comments(2)]
  from assms(2) show ?thesis by (simp add: no_comments(4) f)
next
  case (dry stm)
  note f = frame_fields[OF dry(2)]
  from assms(2) show ?thesis by (simp add: dry(6) f bar_update_def save_cache_def Let_def)
next
  case (failed stm)
  note f = frame_fields[OF failed(2)]
  from assms(2) show ?thesis by (simp add: failed(7) f bar_update_def)
next
  case (created stm log)
  note f = frame_fields[OF created(2)]
  from assms(2) have "(PostIssue j, r) \<in> set ((PostIssue i', remote (sent st) (PostIssue i')) # log)"
    by (simp add: created(7) f bar_update_def save_cache_def Let_def split: if_splits)
  moreover have "(PostIssue j, r) \<notin> set log"
    using created(6) by (auto simp: list_ex_iff)
  ultimately have "r = remote (sent st) (PostIssue i')" by auto
  with created(5) assms(3) show ?thesis by simp
qed

theorem failed_creation_recorded_witness:
  "cant_migrate (snd (snd (migrate_issue failing_remote 0 sample_issue one_issue)))
     = [CantTitle (Some (py ''Crash''))]
   \<and> cached_data (snd (snd (migrate_issue failing_remote 0 sample_issue one_issue))) = []
   \<and> cache_file (snd (snd (migrate_issue failing_remote 0 sample_issue one_issue))) = None
   \<and> sent (snd (snd (migrate_issue failing_remote 0 sample_issue one_issue)))
     = [(PostIssue (sample_issue\<lparr>comments := None\<rparr>),
         \<lparr>status_code = 500, content = NoNumber, titles = []\<rparr>)]"
proof -
  let ?m = "migrate_issue failing_remote 0 sample_issue one_issue"
  let ?r = "\<lparr>status_code = 500, content = NoNumber, titles = []\<rparr>"
  have a: "?m = (fst ?m, fst (snd ?m), snd (snd ?m))" by simp
  have b: "(PostIssue (sample_issue\<lparr>comments := None\<rparr>), ?r)
           \<in> set (drop (length (sent one_issue)) (sent (snd (snd ?m))))"
    by code_simp
  have c: "status_code ?r \<noteq> 201" by simp
  have d: "cant_migrate one_issue = [] \<and> cached_data one_issue = []
           \<and> cache_file one_issue = None \<and> sent one_issue = []
           \<and> title sample_issue = Some (py ''Crash'')"
    by code_simp
  from failed_creation_recorded[OF a b c] d show ?thesis by simp
qed

lemma map_of_unresolved:
  "map_of (map (\<lambda>(mkey, v). if mkey \<in> T then (mkey, v) else (mkey, None)) ms) name =
     (if name \<in> T then map_of ms name else map_option (\<lambda>v. None) (map_of ms name))"
  by (induction ms) auto

text \<open>
  \<open>milestones\<close> binds to \<open>None\<close> every milestone name that the listing does not hold.
\<close>

lemma milestones_binds_None:
  assumes "milestones remote st0 = (e, st)"
    and "map_of (projects st0) (Some (jira_project st0)) = Some p0"
    and "map_of (Milestones p0) name = Some v"
    and "name \<notin> set (titles (remote (sent st0) GetMilestones))"
  shows "\<exists>p. map_of (projects st) (Some (jira_project st)) = Some p
           \<and> map_of (Milestones p) name = Some None"
  using assms
  by (auto simp: milestones_def send_def Let_def update_conv' map_of_unresolved)

text \<open>
  Claim C9. An issue that is not cached and whose milestone name is bound to \<open>None\<close>
  in \<open>Milestones\<close> (left unresolved by \<open>milestones\<close>) is recorded in \<open>cant_migrate\<close>;
  nothing else of the state changes, so no request is made for it, and the loop goes
  on with the remaining issues.
\<close>

theorem unresolved_milestone_diverted:
  assumes "key i \<notin> set (cached_data st)"
    and "milestone_name i = Some name"
    and "map_of (projects st) (Some (jira_project st)) = Some p"
    and "map_of (Milestones p) name = Some None"
  shows "migrate_issue remote index i st =
           (None, i\<lparr>milestone := Some None\<rparr>,
            st\<lparr>cant_migrate := cant_migrate st @ [CantIssue (i\<lparr>milestone := Some None\<rparr>)]\<rparr>)
         \<and> migrate_loop remote index (i # rest) st =
           (case migrate_loop remote (Suc index) rest
                   (st\<lparr>cant_migrate := cant_migrate st @ [CantIssue (i\<lparr>milestone := Some None\<rparr>)]\<rparr>) of
              (e, rest', st') \<Rightarrow> (e, i\<lparr>milestone := Some None\<rparr> # rest', st'))"
  using assms by (simp add: migrate_issue_def lookup_milestone_def Let_def)

theorem unresolved_milestone_diverted_witness:
  "migrate_issue created_remote 0 (sample_issue\<lparr>milestone_name := Some (Some (py ''v1''))\<rparr>)
      (snd (milestones created_remote milestone_state))
   = (None, sample_issue\<lparr>milestone_name := Some (Some (py ''v1'')), milestone := Some None\<rparr>,
      (snd (milestones created_remote milestone_state))
        \<lparr>cant_migrate := [CantIssue (sample_issue
            \<lparr>milestone_name := Some (Some (py ''v1'')), milestone := Some None\<rparr>)]\<rparr>)"
proof -
  let ?st = "snd (milestones created_remote milestone_state)"
  let ?i = "sample_issue\<lparr>milestone_name := Some (Some (py ''v1''))\<rparr>"
  let ?p = "empty_project\<lparr>Milestones := [(Some (py ''v1''), None)],
      Issues := [sample_issue\<lparr>milestone_name := Some (Some (py ''v1''))\<rparr>]\<rparr>"
  have a: "key ?i \<notin> set (cached_data ?st)" by code_simp
  have b: "milestone_name ?i = Some (Some (py ''v1''))" by simp
  have c: "map_of (projects ?st) (Some (jira_project ?st)) = Some ?p" by code_simp
  have d: "map_of (Milestones ?p) (Some (py ''v1'')) = Some None" by code_simp
  have e: "cant_migrate ?st = []" by code_simp
  from unresolved_milestone_diverted[OF a b c d, of created_remote 0 "[]"] e
  show ?thesis by simp
qed

text \<open>
  Claim C10. In dry-run mode \<open>_save_issue\<close> makes no request, appends the key to the
  cache, writes the cache file and returns \<open>True\<close>; so a run of the loop in dry-run
  mode sends nothing and records no issue as failed: every entry it adds to
  \<open>cant_migrate\<close> is one for an unresolved milestone.
\<close>

theorem dry_run_saves_without_request:
  assumes "dry_run st"
  shows "save_issue remote i cs st =
           (Inr (Some True),
            st\<lparr>cached_data := cached_data st @ [key i],
                cache_file := Some (cached_data st @ [key i])\<rparr>)
         \<and> sent (snd (snd (migrate_loop remote index is st))) = sent st
         \<and> list_all unresolved_entry
             (drop (length (cant_migrate st))
                (cant_migrate (snd (snd (migrate_loop remote index is st)))))"
proof -
  have 1: "save_issue remote i cs st =
           (Inr (Some True),
            st\<lparr>cached_data := cached_data st @ [key i],
                cache_file := Some (cached_data st @ [key i])\<rparr>)"
    using assms by (simp add: save_issue_def save_cache_def Let_def)
  obtain e is' st' where m: "migrate_loop remote index is st = (e, is', st')"
    by (cases "migrate_loop remote index is st")
  from migrate_loop_effect[OF m] assms
  have "sent st' = sent st
        \<and> list_all unresolved_entry (drop (length (cant_migrate st)) (cant_migrate st'))"
    by (elim run_effectE) simp
  with 1 m show ?thesis by simp
qed

theorem dry_run_saves_without_request_witness:
  "save_issue failing_remote sample_issue [py ''first''] (one_issue\<lparr>dry_run := True\<rparr>)
   = (Inr (Some True),
      one_issue\<lparr>dry_run := True, cached_data := [Some (py ''PROJ-1'')],
                cache_file := Some [Some (py ''PROJ-1'')]\<rparr>)
   \<and> sent (snd (snd (migrate_loop failing_remote 0 [sample_issue] (one_issue\<lparr>dry_run := True\<rparr>))))
     = []"
proof -
  have a: "dry_run (one_issue\<lparr>dry_run := True\<rparr>)" by simp
  have b: "cached_data (one_issue\<lparr>dry_run := True\<rparr>) = []
           \<and> sent (one_issue\<lparr>dry_run := True\<rparr>) = []
           \<and> key sample_issue = Some (py ''PROJ-1'')" by code_simp
  from dry_run_saves_without_request[OF a, of failing_remote sample_issue "[py ''first'']" 0
      "[sample_issue]"] b
  show ?thesis by simp
qed

lemma diverted_frame:
  "projects s' = projects s \<Longrightarrow> jira_project s' = jira_project s \<Longrightarrow> diverted s' = diverted s"
  by (rule ext) (simp add: diverted_def split: option.splits)

lemma lookup_milestone_diverted:
  assumes "lookup_milestone name st = Inr (m, stm)"
  shows "diverted stm = diverted st \<and> jira_project stm = jira_project st
         \<and> (\<exists>p1. map_of (projects stm) (Some (jira_project stm)) = Some p1)
         \<and> (m = None \<longleftrightarrow> (\<exists>p. map_of (projects st) (Some (jira_project st)) = Some p
                              \<and> map_of (Milestones p) name = Some None))"
proof (cases "map_of (projects st) (Some (jira_project st))")
  case None
  with assms show ?thesis by (simp add: lookup_milestone_def)
next
  case (Some p)
  show ?thesis
  proof (cases "map_of (Milestones p) name")
    case (Some v)
    with assms \<open>map_of (projects st) (Some (jira_project st)) = Some p\<close>
    show ?thesis by (auto simp: lookup_milestone_def)
  next
    case None
    with assms Some have m: "m = Some 0" and
      stm: "stm = st\<lparr>projects := AList.update (Some (jira_project st))
                 (p\<lparr>Milestones := AList.update name (Some 0) (Milestones p)\<rparr>) (projects st)\<rparr>"
      by (auto simp: lookup_milestone_def)
    have "diverted stm i = diverted st i" for i
      using Some None by (auto simp: diverted_def stm update_conv' split: option.splits)
    then have "diverted stm = diverted st" by (simp add: fun_eq_iff)
    with m Some None show ?thesis by (simp add: stm update_conv')
  qed
qed

lemma submit_dry:
  "dry_run st \<Longrightarrow>
   submit remote index j st =
     (case comments j of
        None \<Rightarrow> (Some KeyError, j, st)
      | Some cs \<Rightarrow> (None, j\<lparr>comments := None\<rparr>,
                    bar_update index (save_cache (j\<lparr>comments := None\<rparr>) st)))"
  by (simp add: submit_def save_issue_def Let_def split: option.splits)

lemma migrate_issue_dry:
  assumes "dry_run st" and "map_of (projects st) (Some (jira_project st)) = Some p"
    and "migrate_issue remote index i st = (e, i', st1)"
  shows "dry_run st1 \<and> jira_project st1 = jira_project st
         \<and> (\<exists>p1. map_of (projects st1) (Some (jira_project st1)) = Some p1)
         \<and> diverted st1 = diverted st
         \<and> (if key i \<in> set (cached_data st) \<or> diverted st i
             then e = None \<and> cached_data st1 = cached_data st
             else if comments i = None then e \<noteq> None \<and> cached_data st1 = cached_data st
             else e = None \<and> cached_data st1 = cached_data st @ [key i])"
proof (cases "key i \<in> set (cached_data st)")
  case True
  with assms have "e = None" "st1 = bar_update index st"
    by (auto simp: migrate_issue_def)
  with True assms(1,2) show ?thesis
    by (simp add: bar_update_def diverted_frame[of "st\<lparr>bar_values := bar_values st @ [index]\<rparr>" st])
next
  case nc: False
  have sub: ?thesis if s: "submit remote index j sm = (e, i', st1)"
    and d: "dry_run sm" and c: "comments j = comments i" and k: "key j = key i"
    and cd: "cached_data sm = cached_data st" and jp: "jira_project sm = jira_project st"
    and pj: "\<exists>p1. map_of (projects sm) (Some (jira_project sm)) = Some p1"
    and dv: "diverted sm = diverted st" and nd: "\<not> diverted st i"
    for j sm
  proof (cases "comments i")
    case None
    with s d c have "e = Some KeyError" "st1 = sm" by (auto simp: submit_dry)
    with None d jp pj dv cd nc nd show ?thesis by simp
  next
    case (Some cs)
    with s d c have e: "e = None"
      and st1: "st1 = bar_update index (save_cache (j\<lparr>comments := None\<rparr>) sm)"
      by (auto simp: submit_dry)
    have fr: "projects st1 = projects sm" "jira_project st1 = jira_project sm"
      "dry_run st1 = dry_run sm" "cached_data st1 = cached_data sm @ [key j]"
      by (simp_all add: st1 bar_update_def save_cache_def Let_def)
    from diverted_frame[OF fr(1,2)] dv have "diverted st1 = diverted st" by simp
    with Some e fr d jp pj cd k nc nd show ?thesis by simp
  qed
  show ?thesis
  proof (cases "milestone_name i")
    case None
    then have nd: "\<not> diverted st i" by (simp add: diverted_def)
    from assms(3) nc None have "submit remote index i st = (e, i', st1)"
      by (simp add: migrate_issue_def)
    then show ?thesis using assms(1,2) nd by (intro sub[of i st]) auto
  next
    case (Some name)
    obtain m stm where lk: "lookup_milestone name st = Inr (m, stm)"
      using assms(2) by (cases "lookup_milestone name st")
        (auto simp: lookup_milestone_def split: option.splits)
    note ld = lookup_milestone_diverted[OF lk]
    note f = frame_fields[OF lookup_milestone_frame[OF lk]]
    have dvi: "diverted st i \<longleftrightarrow> m = None"
      using ld assms(2) Some by (auto simp: diverted_def)
    show ?thesis
    proof (cases m)
      case None
      with assms(3) nc Some lk have "e = None"
        "st1 = stm\<lparr>cant_migrate := cant_migrate stm @ [CantIssue (i\<lparr>milestone := Some None\<rparr>)]\<rparr>"
        by (auto simp: migrate_issue_def Let_def)
      moreover have "diverted (stm\<lparr>cant_migrate := cant_migrate stm
            @ [CantIssue (i\<lparr>milestone := Some None\<rparr>)]\<rparr>) = diverted stm"
        by (rule diverted_frame) simp_all
      ultimately show ?thesis using None dvi ld f assms(1) by simp
    next
      case (Some v)
      with assms(3) nc \<open>milestone_name i = Some name\<close> lk
      have "submit remote index (i\<lparr>milestone := Some m, milestone_name := None\<rparr>) stm
            = (e, i', st1)"
        by (auto simp: migrate_issue_def Let_def)
      then show ?thesis using Some dvi ld f assms(1)
        by (intro sub[of "i\<lparr>milestone := Some m, milestone_name := None\<rparr>" stm]) auto
    qed
  qed
qed

lemma migrate_loop_dry:
  "dry_run st \<Longrightarrow> map_of (projects st) (Some (jira_project st)) = Some p \<Longrightarrow>
   migrate_loop remote index is st = (e, is', st') \<Longrightarrow>
   cached_data st' = cached_data st @ dry_keys (cached_data st) (diverted st) is"
proof (induction "is" arbitrary: index st p e is' st')
  case Nil
  then show ?case by simp
next
  case (Cons i rest)
  obtain e1 i1 st1 where m: "migrate_issue remote index i st = (e1, i1, st1)"
    by (cases "migrate_issue remote index i st")
  from migrate_issue_dry[OF Cons.prems(1,2) m] obtain p1 where d:
    "dry_run st1" "map_of (projects st1) (Some (jira_project st1)) = Some p1"
    "diverted st1 = diverted st"
    "if key i \<in> set (cached_data st) \<or> diverted st i
     then e1 = None \<and> cached_data st1 = cached_data st
     else if comments i = None then e1 \<noteq> None \<and> cached_data st1 = cached_data st
     else e1 = None \<and> cached_data st1 = cached_data st @ [key i]"
    by blast
  show ?case
  proof (cases e1)
    case (Some err)
    with Cons.prems(3) m have "st' = st1" by auto
    with Some d(4) show ?thesis by (auto split: if_splits)
  next
    case None
    obtain e2 rest2 st2 where l: "migrate_loop remote (Suc index) rest st1 = (e2, rest2, st2)"
      by (cases "migrate_loop remote (Suc index) rest st1")
    with Cons.prems(3) m None have "st' = st2" by auto
    with Cons.IH[OF d(1,2) l] d(3,4) None show ?thesis by (auto split: if_splits)
  qed
qed

lemma migrate_dry:
  assumes "dry_run st" and "migrate remote st = (e, st')"
  shows "cached_data st' = cached_data st @ dry_keys (cached_data st) (diverted st) (issues_of st)"
proof (cases "map_of (projects st) (Some (jira_project st))")
  case None
  with assms show ?thesis by (auto simp: migrate_def issues_of_def)
next
  case (Some p)
  define st0 where "st0 = st\<lparr>bar_values := [], cant_migrate := []\<rparr>"
  obtain e1 is1 sl where l: "migrate_loop remote 0 (Issues p) st0 = (e1, is1, sl)"
    by (cases "migrate_loop remote 0 (Issues p) st0")
  have "dry_run st0" "map_of (projects st0) (Some (jira_project st0)) = Some p"
    using assms(1) Some by (simp_all add: st0_def)
  from migrate_loop_dry[OF this l]
  have c: "cached_data sl = cached_data st @ dry_keys (cached_data st) (diverted st) (Issues p)"
    by (simp add: st0_def diverted_frame[of "st\<lparr>bar_values := [], cant_migrate := []\<rparr>" st])
  note sf = frame_fields[OF store_issues_frame[of is1 sl]]
  from assms(2) Some l have "cached_data st' = cached_data sl"
    by (cases e1) (auto simp: migrate_def st0_def sf bar_update_def)
  with c Some show ?thesis by (simp add: issues_of_def)
qed

lemma drive_dry:
  assumes "dry_run st" and "drive remote st = (e, st')"
  shows "cached_data st' = cached_data st
           @ dry_keys (cached_data st) (diverted (snd (milestones remote st))) (issues_of st)"
proof -
  obtain e1 st1 where m: "milestones remote st = (e1, st1)"
    by (cases "milestones remote st")
  from m show ?thesis
  proof (cases rule: milestones_cases)
    case no_project
    with assms m show ?thesis by (auto simp: drive_def issues_of_def)
  next
    case (resolved p p1)
    have f: "dry_run st1 = dry_run st" "cached_data st1 = cached_data st"
      "jira_project st1 = jira_project st"
      by (subst resolved(5), simp)+
    from assms(2) m resolved(2) have mg: "migrate remote st1 = (e, st')"
      by (simp add: drive_def)
    have io: "issues_of st1 = issues_of st"
      using resolved(1,3,4) by (simp add: issues_of_def)
    from migrate_dry[OF _ mg] assms(1) f io m show ?thesis by simp
  qed
qed

text \<open>
  Claim C8. The cache never holds a key whose migration did not succeed. The cache
  after a run of the driver is the cache before it followed, outside dry-run mode, by
  the keys of the creation requests of the run that were answered 201 and, in dry-run
  mode, by the keys of the issues for which \<open>_save_issue\<close> was called (and returned
  \<open>True\<close>): those not cached and not diverted for an unresolved milestone. Nothing
  else enters the cache. The cache file is either untouched, the cache being
  unchanged too, or holds the cache in memory.
\<close>

theorem cache_grows_by_created_keys:
  assumes "drive remote st = (e, st')"
  shows "\<exists>log. sent st' = sent st @ log
           \<and> cached_data st' = cached_data st @
               (if dry_run st
                then dry_keys (cached_data st) (diverted (snd (milestones remote st)))
                       (issues_of st)
                else created_keys log)
           \<and> (cache_file st' = cache_file st \<and> cached_data st' = cached_data st
              \<or> cache_file st' = Some (cached_data st'))"
proof -
  have old: "\<exists>log. sent st' = sent st @ log
           \<and> (dry_run st \<or> cached_data st' = cached_data st @ created_keys log)
           \<and> (cache_file st' = cache_file st \<and> cached_data st' = cached_data st
              \<or> cache_file st' = Some (cached_data st'))"
    using assms
  proof (cases rule: drive_cases)
    case no_project
    then show ?thesis
      by (intro exI[of _ "[(GetMilestones, remote (sent st) GetMilestones)]"]) simp
  next
    case (ran p sm)
    from ran(3) obtain log ks where h:
      "sent st' = sent (sm\<lparr>cant_migrate := []\<rparr>) @ log"
      "cached_data st' = cached_data (sm\<lparr>cant_migrate := []\<rparr>) @ ks"
      "\<not> dry_run (sm\<lparr>cant_migrate := []\<rparr>) \<longrightarrow> ks = created_keys log"
      "cache_file st' = cache_file (sm\<lparr>cant_migrate := []\<rparr>) \<and> ks = []
       \<or> cache_file st' = Some (cached_data st')"
      by (rule run_effectE)
    have sm: "sent sm = sent st @ [(GetMilestones, remote (sent st) GetMilestones)]"
      "cached_data sm = cached_data st" "dry_run sm = dry_run st" "cache_file sm = cache_file st"
      by (subst ran(2), simp)+
    show ?thesis
      using h by (intro exI[of _ "(GetMilestones, remote (sent st) GetMilestones) # log"])
        (auto simp: sm)
  qed
  show ?thesis
  proof (cases "dry_run st")
    case True
    from drive_dry[OF True assms] old True show ?thesis by auto
  next
    case False
    with old show ?thesis by auto
  qed
qed

theorem cache_grows_by_created_keys_witness:
  "cached_data (snd (drive created_remote one_issue))
     = created_keys (sent (snd (drive created_remote one_issue)))
   \<and> cached_data (snd (drive created_remote one_issue)) = [Some (py ''PROJ-1'')]
   \<and> cache_file (snd (drive created_remote one_issue)) = Some [Some (py ''PROJ-1'')]
   \<and> cached_data (snd (drive created_remote dry_two)) = [Some (py ''PROJ-2'')]"
proof -
  let ?d = "drive created_remote one_issue"
  let ?t = "drive created_remote dry_two"
  have a: "?d = (fst ?d, snd ?d)" by simp
  have b: "\<not> dry_run one_issue \<and> sent one_issue = [] \<and> cached_data one_issue = []"
    by code_simp
  have c: "cached_data (snd ?d) = [Some (py ''PROJ-1'')]
           \<and> cache_file (snd ?d) = Some [Some (py ''PROJ-1'')]" by code_simp
  have 1: "cached_data (snd ?d) = created_keys (sent (snd ?d))"
    using cache_grows_by_created_keys[OF a] b by auto
  have a2: "?t = (fst ?t, snd ?t)" by simp
  have b2: "dry_run dry_two \<and> cached_data dry_two = []" by code_simp
  have k: "dry_keys [] (diverted (snd (milestones created_remote dry_two))) (issues_of dry_two)
           = [Some (py ''PROJ-2'')]"
    by code_simp
  have 2: "cached_data (snd ?t) = [Some (py ''PROJ-2'')]"
    using cache_grows_by_created_keys[OF a2] b2 k by auto
  from 1 2 c show ?thesis by simp
qed

text \<open>
  Claim C3. Running the driver twice on the same cache and the same source data makes
  no creation request in the second run. As stated this fails: an issue whose creation
  failed in the first run is not cached, and the second run sends its creation request
  again.
\<close>

theorem rerun_repeats_failed_creation:
  "creations (snd (drive failing_remote one_issue)) = 1
   \<and> creations (snd (drive failing_remote
        (rerun one_issue (snd (drive failing_remote one_issue))))) = 2"
  by code_simp

text \<open>
  Claim C3, amended. A second run, started from the cache file that the first run
  left, makes after its milestone listing only requests for issues that are not
  cached: the creation of an issue whose key is not in the cache, or comments that
  follow such a creation answered 201. An issue whose key is in the cache is skipped
  before any request: the loop only updates the progress bar for it and goes on. When
  the first run ended without an error and with \<open>cant_migrate\<close> empty, the second run
  makes no request but the milestone listing, so no creation request.
\<close>

theorem rerun_creates_only_uncached:
  assumes "drive remote1 st = (e1, st1)"
    and "cached_data st = loaded st"
    and "drive remote2 (rerun st st1) = (e2, st2)"
  shows "(\<exists>log. sent st2 = sent st1 @ (GetMilestones, remote2 (sent st1) GetMilestones) # log
            \<and> for_uncached (cached_data st1) (issues_of st) False log
            \<and> (e1 = None \<and> cant_migrate st1 = []
                 \<longrightarrow> log = [] \<and> creations st2 = creations st1))
         \<and> (key i \<in> set (cached_data s) \<longrightarrow>
              migrate_loop remote index (i # rest) s =
                (case migrate_loop remote (Suc index) rest (bar_update index s) of
                   (e, rest', s') \<Rightarrow> (e, i # rest', s')))"
proof -
  have skip: "key i \<in> set (cached_data s) \<longrightarrow>
              migrate_loop remote index (i # rest) s =
                (case migrate_loop remote (Suc index) rest (bar_update index s) of
                   (e, rest', s') \<Rightarrow> (e, i # rest', s'))"
    by (simp add: migrate_issue_def)
  have sr: "sent (rerun st st1) = sent st1" by (simp add: rerun_fields)
  have main: "\<exists>log. sent st2 = sent st1 @ (GetMilestones, remote2 (sent st1) GetMilestones) # log
            \<and> for_uncached (cached_data st1) (issues_of st) False log
            \<and> (e1 = None \<and> cant_migrate st1 = []
                 \<longrightarrow> log = [] \<and> creations st2 = creations st1)"
    using assms(1)
  proof (cases rule: drive_cases)
    case no_project
    have np: "map_of (projects (rerun st st1)) (Some (jira_project (rerun st st1))) = None"
      using no_project(1) by (simp add: rerun_fields)
    from assms(3) show ?thesis
    proof (cases rule: drive_cases)
      case no_project
      show ?thesis
        by (rule exI[of _ "[]"])
           (simp add: no_project(3) rerun_fields \<open>e1 = Some KeyError\<close>)
    next
      case (ran p sm)
      with np show ?thesis by simp
    qed
  next
    case first: (ran p sm)
    from first(3) obtain log1 ks1 cm1 where h:
      "cached_data st1 = cached_data (sm\<lparr>cant_migrate := []\<rparr>) @ ks1"
      "cant_migrate st1 = cant_migrate (sm\<lparr>cant_migrate := []\<rparr>) @ cm1"
      "cache_file st1 = cache_file (sm\<lparr>cant_migrate := []\<rparr>) \<and> ks1 = []
       \<or> cache_file st1 = Some (cached_data st1)"
      "e1 = None \<and> cm1 = [] \<longrightarrow> key ` set (Issues p) \<subseteq> set (cached_data st1)"
      by (rule run_effectE)
    have smf: "cached_data sm = cached_data st" "cache_file sm = cache_file st"
      by (subst first(2), simp)+
    have ld: "loaded st1 = cached_data st1"
      using h(1,3) assms(2) by (auto simp: smf loaded_def)
    have all: "e1 = None \<and> cant_migrate st1 = [] \<longrightarrow> key ` set (Issues p) \<subseteq> set (cached_data st1)"
      using h(2,4) by simp
    have io: "issues_of st = Issues p"
      using first(1) by (simp add: issues_of_def)
    from assms(3) show ?thesis
    proof (cases rule: drive_cases)
      case no_project
      with first(1) show ?thesis by (simp add: rerun_fields)
    next
      case (ran q sm2)
      have q: "q = p" using ran(1) first(1) by (simp add: rerun_fields)
      have sm2: "sent sm2 = sent st1 @ [(GetMilestones, remote2 (sent st1) GetMilestones)]"
        "cached_data sm2 = cached_data st1"
        by (subst ran(2), simp add: rerun_fields ld)+
      from ran(3) obtain log2 where g:
        "sent st2 = sent (sm2\<lparr>cant_migrate := []\<rparr>) @ log2"
        "for_uncached (cached_data (sm2\<lparr>cant_migrate := []\<rparr>)) (Issues q) False log2"
        by (rule run_effectE)
      have 1: "sent st2 = sent st1 @ (GetMilestones, remote2 (sent st1) GetMilestones) # log2"
        using g(1) by (simp add: sm2)
      have 2: "for_uncached (cached_data st1) (issues_of st) False log2"
        using g(2) by (simp add: sm2 q io)
      have 3: "e1 = None \<and> cant_migrate st1 = [] \<longrightarrow> log2 = [] \<and> creations st2 = creations st1"
      proof
        assume a: "e1 = None \<and> cant_migrate st1 = []"
        with all have "key ` set (issues_of st) \<subseteq> set (cached_data st1)" by (simp add: io)
        from for_uncached_all_cached[OF 2 this] have l: "log2 = []" .
        with 1 have "creations st2 = creations st1"
          by (simp add: creations_def)
        with l show "log2 = [] \<and> creations st2 = creations st1" by simp
      qed
      from 1 2 3 show ?thesis by blast
    qed
  qed
  from main skip show ?thesis by blast
qed

theorem rerun_creates_only_uncached_witness:
  "sent (snd (drive created_remote (rerun one_issue (snd (drive created_remote one_issue)))))
   = sent (snd (drive created_remote one_issue))
     @ [(GetMilestones, \<lparr>status_code = 201, content = Number (py ''7''), titles = []\<rparr>)]
   \<and> creations (snd (drive created_remote (rerun one_issue (snd (drive created_remote one_issue)))))
     = creations (snd (drive created_remote one_issue))
   \<and> creations (snd (drive created_remote one_issue)) = 1"
proof -
  let ?st1 = "snd (drive created_remote one_issue)"
  let ?st2 = "snd (drive created_remote (rerun one_issue ?st1))"
  have a: "drive created_remote one_issue = (fst (drive created_remote one_issue), ?st1)"
    by simp
  have b: "cached_data one_issue = loaded one_issue"
    by code_simp
  have c: "drive created_remote (rerun one_issue ?st1)
           = (fst (drive created_remote (rerun one_issue ?st1)), ?st2)"
    by simp
  have d: "fst (drive created_remote one_issue) = None \<and> cant_migrate ?st1 = []"
    by code_simp
  have e: "creations ?st1 = 1" by code_simp
  have r: "created_remote (sent ?st1) GetMilestones
           = \<lparr>status_code = 201, content = Number (py ''7''), titles = []\<rparr>"
    by (simp add: created_remote_def)
  from rerun_creates_only_uncached[OF a b c] d e r show ?thesis by auto
qed

section \<open>Properties of the extraction\<close>

lemma same_head_refl [simp]: "same_head x x"
  by (simp add: same_head_def)

lemma same_head_upd [simp]:
  "same_head (x\<lparr>labels := l\<rparr>) z = same_head x z"
  "same_head (x\<lparr>comments := c\<rparr>) z = same_head x z"
  "same_head (x\<lparr>milestone_name := m\<rparr>) z = same_head x z"
  by (simp_all add: same_head_def)

lemma upd_last_snoc: "upd_last f (xs @ [x]) = xs @ [f x]"
  by (simp add: upd_last_def)

lemma fst_set_incr: "fst ` set (incr k d) = insert k (fst ` set d)"
  by (simp add: incr_def dom_update)

lemma append_label_last:
  "Issues p = xs @ [x] \<Longrightarrow> same_head x z \<Longrightarrow>
   \<exists>y. Issues (append_label v p) = xs @ [y] \<and> same_head y z"
  by (simp add: append_label_def upd_last_snoc)

lemma append_label_counts [simp]:
  "Milestones (append_label v p) = Milestones p"
  "Components (append_label v p) = Components p"
  "Labels (append_label v p) = Labels p"
  by (simp_all add: append_label_def)

lemma add_fixVersion_last:
  "add_fixVersion item p = Inr p1 \<Longrightarrow> Issues p = xs @ [x] \<Longrightarrow> same_head x z \<Longrightarrow>
   \<exists>y. Issues p1 = xs @ [y] \<and> same_head y z"
  by (auto simp: add_fixVersion_def upd_last_snoc split: option.splits)

lemma add_fixVersion_counts:
  "add_fixVersion item p = Inr p1 \<Longrightarrow>
   Components p1 = Components p \<and> Labels p1 = Labels p
   \<and> (Milestones p = [] \<longrightarrow>
        Milestones p1 = (case x_fixVersion item of None \<Rightarrow> [] | Some v \<Rightarrow> [(v, Some 1)]))"
  by (auto simp: add_fixVersion_def split: option.splits)

lemma add_component_last:
  "Issues p = xs @ [x] \<Longrightarrow> same_head x z \<Longrightarrow>
   \<exists>y. Issues (add_component item p) = xs @ [y] \<and> same_head y z"
  by (auto simp: add_component_def append_label_def upd_last_snoc split: option.splits)

lemma add_component_counts:
  "Milestones (add_component item p) = Milestones p \<and> Labels (add_component item p) = Labels p
   \<and> (Components p = [] \<longrightarrow>
        Components (add_component item p)
        = (case x_component item of None \<Rightarrow> [] | Some v \<Rightarrow> [(v, 1)]))"
  by (auto simp: add_component_def incr_def split: option.splits)

lemma add_priority_last:
  "Issues p = xs @ [x] \<Longrightarrow> same_head x z \<Longrightarrow>
   \<exists>y. Issues (add_priority item p) = xs @ [y] \<and> same_head y z"
  by (auto simp: add_priority_def append_label_def upd_last_snoc split: option.splits)

lemma add_priority_counts:
  "Milestones (add_priority item p) = Milestones p
   \<and> Components (add_priority item p) = Components p
   \<and> fst ` set (Labels (add_priority item p)) = fst ` set (Labels p) \<union> set_option (x_priority item)"
  by (auto simp: add_priority_def fst_set_incr split: option.splits)

lemma add_versions_last:
  "add_versions d vs p = Inr p1 \<Longrightarrow> Issues p = xs @ [x] \<Longrightarrow> same_head x z \<Longrightarrow>
   \<exists>y. Issues p1 = xs @ [y] \<and> same_head y z"
proof (induction vs arbitrary: p x)
  case Nil
  then show ?case by simp
next
  case (Cons v vs)
  from Cons.prems(1) obtain m where m: "version_matches d v = Inr m"
    by (auto simp: bind_err_def split: sum.splits)
  show ?case
  proof (cases m)
    case True
    let ?q = "append_label v (p\<lparr>Labels := incr v (Labels p)\<rparr>)"
    from Cons.prems m True have a: "add_versions d vs ?q = Inr p1"
      by (simp add: bind_err_def)
    have b: "Issues ?q = xs @ [x\<lparr>labels := labels x @ [v]\<rparr>]"
      using Cons.prems(2) by (simp add: append_label_def upd_last_snoc)
    have c: "same_head (x\<lparr>labels := labels x @ [v]\<rparr>) z"
      using Cons.prems(3) by simp
    from Cons.IH[OF a b c] show ?thesis .
  next
    case False
    with Cons.prems m have "add_versions d vs p = Inr p1" by (simp add: bind_err_def)
    from Cons.IH[OF this Cons.prems(2,3)] show ?thesis .
  qed
qed

lemma add_versions_counts:
  "add_versions d vs p = Inr p1 \<Longrightarrow>
   Milestones p1 = Milestones p \<and> Components p1 = Components p
   \<and> fst ` set (Labels p1) \<subseteq> fst ` set (Labels p) \<union> set vs"
proof (induction vs arbitrary: p)
  case Nil
  then show ?case by simp
next
  case (Cons v vs)
  from Cons.prems(1) obtain m where m: "version_matches d v = Inr m"
    by (auto simp: bind_err_def split: sum.splits)
  show ?case
  proof (cases m)
    case True
    let ?q = "append_label v (p\<lparr>Labels := incr v (Labels p)\<rparr>)"
    from Cons.prems m True have a: "add_versions d vs ?q = Inr p1"
      by (simp add: bind_err_def)
    from Cons.IH[OF a] show ?thesis by (auto simp: fst_set_incr)
  next
    case False
    with Cons.prems m have "add_versions d vs p = Inr p1" by (simp add: bind_err_def)
    from Cons.IH[OF this] show ?thesis by auto
  qed
qed

lemma add_labels_last:
  "Issues p = xs @ [x] \<Longrightarrow> same_head x z \<Longrightarrow>
   \<exists>y. Issues (add_labels ls p) = xs @ [y] \<and> same_head y z"
proof (induction ls arbitrary: p x)
  case Nil
  then show ?case by simp
next
  case (Cons l ls)
  let ?q = "append_label l (p\<lparr>Labels := incr l (Labels p)\<rparr>)"
  have b: "Issues ?q = xs @ [x\<lparr>labels := labels x @ [l]\<rparr>]"
    using Cons.prems(1) by (simp add: append_label_def upd_last_snoc)
  have c: "same_head (x\<lparr>labels := labels x @ [l]\<rparr>) z"
    using Cons.prems(2) by simp
  from Cons.IH[OF b c] show ?case by simp
qed

lemma add_labels_counts:
  "Milestones (add_labels ls p) = Milestones p \<and> Components (add_labels ls p) = Components p
   \<and> fst ` set (Labels (add_labels ls p)) = fst ` set (Labels p) \<union> set ls"
  by (induction ls arbitrary: p) (auto simp: fst_set_incr)

lemma add_comments_last:
  "add_comments tbl cs p = Inr p1 \<Longrightarrow> Issues p = xs @ [x] \<Longrightarrow> same_head x z \<Longrightarrow>
   \<exists>y. Issues p1 = xs @ [y] \<and> same_head y z"
proof (induction cs arbitrary: p x)
  case Nil
  then show ?case by simp
next
  case (Cons c cs)
  from Cons.prems(1) obtain author created q where
    a: "add_comments tbl cs q = Inr p1" and
    q: "q = p\<lparr>Issues := upd_last
              (\<lambda>i. i\<lparr>comments := map_option
                     (\<lambda>cs. cs @ [py ''<b><i>[author='' @ [34] @ author @ [34]
                                  @ py '', created='' @ [34] @ created @ [34]
                                  @ py '']</i></b>'' @ [10]
                                  @ htmlentitydecode tbl (c_text c)])
                     (comments i)\<rparr>)
              (Issues p)\<rparr>"
    by (auto simp: bind_err_def split: sum.splits)
  have "\<exists>y. Issues q = xs @ [y] \<and> same_head y z"
    using Cons.prems(2,3) by (simp add: q upd_last_snoc)
  then obtain y where "Issues q = xs @ [y]" "same_head y z" by blast
  from Cons.IH[OF a this] show ?case .
qed

lemma add_comments_counts:
  "add_comments tbl cs p = Inr p1 \<Longrightarrow>
   Milestones p1 = Milestones p \<and> Components p1 = Components p \<and> Labels p1 = Labels p"
proof (induction cs arbitrary: p)
  case Nil
  then show ?case by simp
next
  case (Cons c cs)
  from Cons.prems(1) obtain q where
    a: "add_comments tbl cs q = Inr p1" and
    q: "Milestones q = Milestones p \<and> Components q = Components p \<and> Labels q = Labels p"
    by (auto simp: bind_err_def split: sum.splits)
  from Cons.IH[OF a] q show ?case by simp
qed

lemma add_item_last:
  assumes "add_item d tbl item i p = Inr p'"
  shows "\<exists>y. Issues p' = Issues p @ [y] \<and> same_head y i"
proof -
  from assms obtain p1 p2 where
    1: "add_fixVersion item (p\<lparr>Issues := Issues p @ [i]\<rparr>) = Inr p1" and
    2: "add_versions d (x_version item) (add_component item p1) = Inr p2" and
    3: "add_comments tbl (x_comments item) (add_labels (x_labels item) (add_priority item p2)) = Inr p'"
    by (auto simp: add_item_def bind_err_def split: sum.splits)
  from add_fixVersion_last[OF 1, of "Issues p" i i] obtain y1 where
    "Issues p1 = Issues p @ [y1]" "same_head y1 i" by auto
  from add_component_last[OF this] obtain y2 where
    "Issues (add_component item p1) = Issues p @ [y2]" "same_head y2 i" by blast
  from add_versions_last[OF 2 this] obtain y3 where
    "Issues p2 = Issues p @ [y3]" "same_head y3 i" by blast
  from add_priority_last[OF this] obtain y4 where
    "Issues (add_priority item p2) = Issues p @ [y4]" "same_head y4 i" by blast
  from add_labels_last[OF this] obtain y5 where
    "Issues (add_labels (x_labels item) (add_priority item p2)) = Issues p @ [y5]"
    "same_head y5 i" by blast
  from add_comments_last[OF 3 this] show ?thesis .
qed

lemma add_item_counts:
  assumes "add_item d tbl item i empty_project = Inr p'"
  shows "Milestones p' = (case x_fixVersion item of None \<Rightarrow> [] | Some v \<Rightarrow> [(v, Some 1)])
         \<and> Components p' = (case x_component item of None \<Rightarrow> [] | Some v \<Rightarrow> [(v, 1)])
         \<and> fst ` set (Labels p')
            \<subseteq> set (x_version item) \<union> set_option (x_priority item) \<union> set (x_labels item)"
proof -
  let ?p = "empty_project"
  from assms obtain p1 p2 where
    1: "add_fixVersion item (?p\<lparr>Issues := Issues ?p @ [i]\<rparr>) = Inr p1" and
    2: "add_versions d (x_version item) (add_component item p1) = Inr p2" and
    3: "add_comments tbl (x_comments item) (add_labels (x_labels item) (add_priority item p2)) = Inr p'"
    by (auto simp: add_item_def bind_err_def split: sum.splits)
  from add_fixVersion_counts[OF 1] have a:
    "Components p1 = []" "Labels p1 = []"
    "Milestones p1 = (case x_fixVersion item of None \<Rightarrow> [] | Some v \<Rightarrow> [(v, Some 1)])"
    by (simp_all add: empty_project_def)
  from add_component_counts[of item p1] a have b:
    "Milestones (add_component item p1) = Milestones p1"
    "Labels (add_component item p1) = []"
    "Components (add_component item p1)
       = (case x_component item of None \<Rightarrow> [] | Some v \<Rightarrow> [(v, 1)])"
    by simp_all
  from add_versions_counts[OF 2] b have c:
    "Milestones p2 = Milestones p1"
    "Components p2 = (case x_component item of None \<Rightarrow> [] | Some v \<Rightarrow> [(v, 1)])"
    "fst ` set (Labels p2) \<subseteq> set (x_version item)"
    by simp_all
  from add_comments_counts[OF 3] add_labels_counts[of "x_labels item" "add_priority item p2"]
    add_priority_counts[of item p2] a c
  show ?thesis by auto
qed


lemma make_issue_fields:
  "make_issue tbl item r = Inr i \<Longrightarrow>
   x_title item = Some (title i) \<and> x_type item = Some (issue_type i) \<and> x_key item = Some (key i)"
  by (auto simp: make_issue_def bind_err_def elem_text_def elem_str_def
           split: sum.splits option.splits)

lemma derived_key_fields:
  "derived_key item = Inr proj \<Longrightarrow>
   (case x_project item of
      Some k \<Rightarrow> proj = k
    | None \<Rightarrow> \<exists>kt. x_key item = Some (Some kt) \<and> proj = Some (takeWhile (\<lambda>c. c \<noteq> 45) kt))"
  by (auto simp: derived_key_def split: option.splits)

lemma add_to_projects_Inr:
  assumes "add_to_projects d tbl item st = Inr st'"
  obtains proj r i p p' where
    "derived_key item = Inr proj" "resolved_at item = Inr r" "make_issue tbl item r = Inr i"
    "map_of (if map_of (projects st) proj = None
             then AList.update (Some (jira_project st)) empty_project (projects st)
             else projects st) (Some (jira_project st)) = Some p"
    "add_item d tbl item i p = Inr p'"
    "st' = st\<lparr>projects := AList.update (Some (jira_project st)) p'
             (if map_of (projects st) proj = None
              then AList.update (Some (jira_project st)) empty_project (projects st)
              else projects st)\<rparr>"
  using assms
  by (auto simp: add_to_projects_def bind_err_def Let_def split: sum.splits option.splits if_splits)

lemma add_to_projects_keys:
  assumes "add_to_projects d tbl item st = Inr st'"
  shows "fst ` set (projects st') = insert (Some (jira_project st)) (fst ` set (projects st))
         \<and> jira_project st' = jira_project st"
proof -
  from assms obtain proj p' where h:
    "st' = st\<lparr>projects := AList.update (Some (jira_project st)) p'
             (if map_of (projects st) proj = None
              then AList.update (Some (jira_project st)) empty_project (projects st)
              else projects st)\<rparr>"
    by (rule add_to_projects_Inr)
  show ?thesis
    by (cases "map_of (projects st) proj = None") (simp_all add: h dom_update)
qed

lemma add_all_keys:
  "add_all d tbl items st = Inr st' \<Longrightarrow> fst ` set (projects st) \<subseteq> {Some (jira_project st)} \<Longrightarrow>
   fst ` set (projects st') \<subseteq> {Some (jira_project st)} \<and> jira_project st' = jira_project st"
proof (induction items arbitrary: st)
  case Nil
  then show ?case by simp
next
  case (Cons item items)
  from Cons.prems(1) obtain st1 where
    a: "add_to_projects d tbl item st = Inr st1" and b: "add_all d tbl items st1 = Inr st'"
    by (auto simp: bind_err_def split: sum.splits)
  from add_to_projects_keys[OF a] Cons.prems(2)
  have k: "fst ` set (projects st1) \<subseteq> {Some (jira_project st1)}" "jira_project st1 = jira_project st"
    by auto
  from Cons.IH[OF b k(1)] k(2) show ?case by simp
qed

text \<open>
  Claim C2. During extraction, which starts with no project, an item is stored under
  the configured project key and under no other: that key is the only key of
  \<open>projects\<close>, and its entry ends with the issue built from the item (its title, key,
  type and body). The key derived from the item is its \<open>project\<close> attribute, or the
  part of its key before the first hyphen when it has no \<open>project\<close> element. When the
  derived key is not a key of \<open>projects\<close>, the entry is made anew from the empty model:
  it holds this issue alone and the counts of this item alone. Otherwise the derived
  key is the configured one and the issue is appended to the entry. A derived key
  other than the configured one is never a key of \<open>projects\<close>, so at such an item all
  earlier issues and counts are gone.
\<close>

theorem unknown_project_key_resets_entry:
  assumes "projects st0 = []"
    and "add_all isdigit tbl items st0 = Inr st"
    and "add_to_projects isdigit tbl item st = Inr st'"
  shows "\<exists>proj r i p' y.
           derived_key item = Inr proj
         \<and> (case x_project item of
               Some k \<Rightarrow> proj = k
             | None \<Rightarrow> \<exists>kt. x_key item = Some (Some kt)
                            \<and> proj = Some (takeWhile (\<lambda>c. c \<noteq> 45) kt))
         \<and> resolved_at item = Inr r \<and> make_issue tbl item r = Inr i
         \<and> x_title item = Some (title i) \<and> x_type item = Some (issue_type i)
         \<and> x_key item = Some (key i)
         \<and> title y = title i \<and> key y = key i \<and> issue_type y = issue_type i \<and> body y = body i
         \<and> fst ` set (projects st') = {Some (jira_project st)}
         \<and> map_of (projects st') (Some (jira_project st)) = Some p'
         \<and> (if map_of (projects st) proj = None
             then add_item isdigit tbl item i empty_project = Inr p' \<and> Issues p' = [y]
                  \<and> Milestones p'
                    = (case x_fixVersion item of None \<Rightarrow> [] | Some v \<Rightarrow> [(v, Some 1)])
                  \<and> Components p'
                    = (case x_component item of None \<Rightarrow> [] | Some v \<Rightarrow> [(v, 1)])
                  \<and> fst ` set (Labels p')
                    \<subseteq> set (x_version item) \<union> set_option (x_priority item) \<union> set (x_labels item)
             else proj = Some (jira_project st)
                  \<and> (\<exists>p. map_of (projects st) (Some (jira_project st)) = Some p
                         \<and> add_item isdigit tbl item i p = Inr p'
                         \<and> Issues p' = Issues p @ [y]))
         \<and> (proj \<noteq> Some (jira_project st) \<longrightarrow> map_of (projects st) proj = None)"
proof -
  from add_all_keys[OF assms(2)] assms(1)
  have inv: "fst ` set (projects st) \<subseteq> {Some (jira_project st)}" by simp
  from assms(3) obtain proj r i p p' where h:
    "derived_key item = Inr proj" "resolved_at item = Inr r" "make_issue tbl item r = Inr i"
    "map_of (if map_of (projects st) proj = None
             then AList.update (Some (jira_project st)) empty_project (projects st)
             else projects st) (Some (jira_project st)) = Some p"
    "add_item isdigit tbl item i p = Inr p'"
    "st' = st\<lparr>projects := AList.update (Some (jira_project st)) p'
             (if map_of (projects st) proj = None
              then AList.update (Some (jira_project st)) empty_project (projects st)
              else projects st)\<rparr>"
    by (rule add_to_projects_Inr)
  have c: "proj \<noteq> Some (jira_project st) \<longrightarrow> map_of (projects st) proj = None"
    using inv by (auto simp: map_of_eq_None_iff)
  note dk = derived_key_fields[OF h(1)]
  note mi = make_issue_fields[OF h(3)]
  from add_item_last[OF h(5)] obtain y where
    y: "Issues p' = Issues p @ [y]" and sh: "same_head y i" by blast
  have hd: "title y = title i \<and> key y = key i \<and> issue_type y = issue_type i \<and> body y = body i"
    using sh by (simp add: same_head_def)
  have a: "fst ` set (projects st') = {Some (jira_project st)}"
    using inv by (auto simp: h(6) dom_update)
  have m: "map_of (projects st') (Some (jira_project st)) = Some p'"
    by (simp add: h(6) update_conv')
  have br: "if map_of (projects st) proj = None
             then add_item isdigit tbl item i empty_project = Inr p' \<and> Issues p' = [y]
                  \<and> Milestones p'
                    = (case x_fixVersion item of None \<Rightarrow> [] | Some v \<Rightarrow> [(v, Some 1)])
                  \<and> Components p'
                    = (case x_component item of None \<Rightarrow> [] | Some v \<Rightarrow> [(v, 1)])
                  \<and> fst ` set (Labels p')
                    \<subseteq> set (x_version item) \<union> set_option (x_priority item) \<union> set (x_labels item)
             else proj = Some (jira_project st)
                  \<and> (\<exists>p. map_of (projects st) (Some (jira_project st)) = Some p
                         \<and> add_item isdigit tbl item i p = Inr p'
                         \<and> Issues p' = Issues p @ [y])"
  proof (cases "map_of (projects st) proj = None")
    case True
    with h(4) have pe: "p = empty_project" by (simp add: update_conv')
    from h(5) have ai: "add_item isdigit tbl item i empty_project = Inr p'" by (simp add: pe)
    from y have "Issues p' = [y]" by (simp add: pe empty_project_def)
    with True ai add_item_counts[OF ai] show ?thesis by simp
  next
    case False
    with c have pj: "proj = Some (jira_project st)" by blast
    from False h(4) have "map_of (projects st) (Some (jira_project st)) = Some p"
      by (auto split: if_splits)
    with False pj h(5) y show ?thesis by auto
  qed
  from h(1) dk h(2,3) mi hd a m br c show ?thesis by blast
qed

theorem unknown_project_key_resets_entry_witness:
  "map_option (\<lambda>p. map key (Issues p)) (map_of (projects after_other) (Some (py ''PROJ'')))
     = Some [Some (py ''OTHER-7'')]
   \<and> map_option (\<lambda>p. map key (Issues p)) (map_of (projects after_next) (Some (py ''PROJ'')))
     = Some [Some (py ''PROJ-1''), Some (py ''PROJ-2'')]
   \<and> fst ` set (projects after_other) = {Some (py ''PROJ'')}"
proof -
  have a: "projects (init (py ''PROJ'') None) = []" by (simp add: init_def)
  have b: "add_all ascii_digit sample_table [sample_item] (init (py ''PROJ'') None) = Inr after_one"
    unfolding after_one_def by code_simp
  have jp: "jira_project after_one = py ''PROJ''"
    unfolding after_one_def by code_simp
  have one: "map_option (\<lambda>p. map key (Issues p)) (map_of (projects after_one) (Some (py ''PROJ'')))
     = Some [Some (py ''PROJ-1'')]"
    unfolding after_one_def by code_simp
  have d1: "add_to_projects ascii_digit sample_table other_item after_one = Inr after_other"
    unfolding after_other_def after_one_def by code_simp
  have d2: "add_to_projects ascii_digit sample_table next_item after_one = Inr after_next"
    unfolding after_next_def after_one_def by code_simp
  have xo: "x_project other_item = None" "x_key other_item = Some (Some (py ''OTHER-7''))"
    by (simp_all add: other_item_def)
  have xn: "x_project next_item = Some (Some (py ''PROJ''))"
    "x_key next_item = Some (Some (py ''PROJ-2''))"
    by (simp_all add: next_item_def sample_item_def)
  have tw: "takeWhile (\<lambda>c. c \<noteq> 45) (py ''OTHER-7'') = py ''OTHER''"
    by (simp add: py_def)
  have no: "map_of (projects after_one) (Some (py ''OTHER'')) = None"
    unfolding after_one_def by code_simp
  have yes: "map_of (projects after_one) (Some (py ''PROJ'')) \<noteq> None"
    using one by auto
  from unknown_project_key_resets_entry[OF a b d1]
  have 1: "map_option (\<lambda>p. map key (Issues p)) (map_of (projects after_other) (Some (py ''PROJ'')))
     = Some [Some (py ''OTHER-7'')]
     \<and> fst ` set (projects after_other) = {Some (py ''PROJ'')}"
    by (auto simp: xo tw no jp)
  from unknown_project_key_resets_entry[OF a b d2] one yes
  have 2: "map_option (\<lambda>p. map key (Issues p)) (map_of (projects after_next) (Some (py ''PROJ'')))
     = Some [Some (py ''PROJ-1''), Some (py ''PROJ-2'')]"
    by (auto simp: xn jp)
  from 1 2 show ?thesis by simp
qed

end
